theory Spec2Isabelle
  imports Complex_Main "HOL-Library.Word" "HOL-Library.Multiset"
begin

section \<open>Audio codec (src/utils/audioUtils.ts)\<close>

text \<open>
  Bytes of a \<^verbatim>\<open>Uint8Array\<close> are 8-bit words, elements of an \<^verbatim>\<open>Int16Array\<close> are 16-bit
  words read as two's complement by \<open>sint\<close>.  A JavaScript "binary string" (the argument of
  \<^verbatim>\<open>btoa\<close>, the result of \<^verbatim>\<open>atob\<close>) is the list of its character codes.  JavaScript
  numbers are modelled as reals: every value that occurs in the codec (a 32-bit float
  sample, its product with 32767 or 32768, a 16-bit integer divided by 32768) is exactly
  representable as a double, so no rounding takes place.  The value \<^verbatim>\<open>NaN\<close>, which a read
  past the end of a typed array produces, is a constructor of its own in the decoded
  samples; the samples given to the encoder are numbers.
\<close>

type_synonym byte = "8 word"
type_synonym int16 = "16 word"
type_synonym binary_string = "nat list"

datatype error = InvalidCharacterError | RangeError | NotSupportedError | TypeError

datatype sample = NaN | Sample real

record audio_buffer =
  numberOfChannels :: nat
  buf_length :: nat
  sampleRate :: real
  channelData :: "sample list list"

text \<open>\<^verbatim>\<open>AudioBuffer.duration\<close>: the length in frames over the sample rate.\<close>

definition duration :: "audio_buffer \<Rightarrow> real" where
  "duration b = real (buf_length b) / sampleRate b"

text \<open>
  \<^verbatim>\<open>decode(base64)\<close>: the platform's \<^verbatim>\<open>atob\<close> is a parameter; it throws
  \<^verbatim>\<open>InvalidCharacterError\<close> on text that is not base64 (\<open>None\<close>).  Each character code is
  stored into a \<^verbatim>\<open>Uint8Array\<close>, which keeps it modulo 256.
\<close>

definition decode :: "(string \<Rightarrow> binary_string option) \<Rightarrow> string \<Rightarrow> error + byte list" where
  "decode atob base64 =
     (case atob base64 of
        None \<Rightarrow> Inl InvalidCharacterError
      | Some binaryString \<Rightarrow> Inr (map of_nat binaryString))"

text \<open>
  \<^verbatim>\<open>new Int16Array(data.buffer)\<close>: a view of the bytes as little-endian 16-bit integers
  (the byte order of every platform the program runs on).  The constructor throws
  \<^verbatim>\<open>RangeError\<close> when the byte length of the buffer is not a multiple of the element
  size 2.
\<close>

fun le16 :: "byte list \<Rightarrow> int16 list" where
  "le16 (lo # hi # rest) = word_of_nat (unat lo + 256 * unat hi) # le16 rest"
| "le16 _ = []"

definition Int16Array :: "byte list \<Rightarrow> error + int16 list" where
  "Int16Array bytes = (if odd (length bytes) then Inl RangeError else Inr (le16 bytes))"

text \<open>
  \<^verbatim>\<open>ctx.createBuffer(numberOfChannels, length, sampleRate)\<close> of the Web Audio API: the
  length is converted to an unsigned integer by truncation, and \<^verbatim>\<open>NotSupportedError\<close>
  is thrown when an argument is zero or negative.  Every channel starts as silence.  An
  implementation also rejects arguments beyond its limits; these lie outside the ranges
  every implementation supports (up to 32 channels, rates from 8000 to 96000 Hz) and are
  not modelled.
\<close>

definition createBuffer :: "nat \<Rightarrow> real \<Rightarrow> real \<Rightarrow> error + audio_buffer" where
  "createBuffer numChannels len rate =
     (if numChannels = 0 \<or> nat \<lfloor>len\<rfloor> = 0 \<or> rate \<le> 0 then Inl NotSupportedError
      else Inr \<lparr>numberOfChannels = numChannels, buf_length = nat \<lfloor>len\<rfloor>, sampleRate = rate,
                channelData = replicate numChannels (replicate (nat \<lfloor>len\<rfloor>) (Sample 0))\<rparr>)"

text \<open>
  \<^verbatim>\<open>dataInt16[k] / 32768.0\<close>: a read past the end gives \<^verbatim>\<open>undefined\<close>, and the quotient
  is \<^verbatim>\<open>NaN\<close>.
\<close>

definition read_sample :: "int16 list \<Rightarrow> nat \<Rightarrow> sample" where
  "read_sample dataInt16 k =
     (if k < length dataInt16 then Sample (real_of_int (sint (dataInt16 ! k)) / 32768) else NaN)"

text \<open>
  The inner loop \<^verbatim>\<open>for (i = 0; i < frameCount; i++) channelData[i] = ...\<close>.  The bound
  \<open>frameCount\<close> is a quotient and need not be an integer: \<open>i < frameCount\<close> holds for the
  integers below its ceiling.  A write past the end of a \<^verbatim>\<open>Float32Array\<close> is ignored, as
  \<open>xs[i := v]\<close> is.
\<close>

definition fill_channel :: "int16 list \<Rightarrow> nat \<Rightarrow> real \<Rightarrow> nat \<Rightarrow> sample list \<Rightarrow> sample list" where
  "fill_channel dataInt16 numChannels frameCount channel cd =
     foldl (\<lambda>cd i. cd[i := read_sample dataInt16 (i * numChannels + channel)])
       cd [0..<nat \<lceil>frameCount\<rceil>]"

text \<open>\<^verbatim>\<open>decodeAudioData(data, ctx, sampleRate, numChannels)\<close>.\<close>

definition decodeAudioData :: "byte list \<Rightarrow> real \<Rightarrow> nat \<Rightarrow> error + audio_buffer" where
  "decodeAudioData data rate numChannels =
     (case Int16Array data of
        Inl e \<Rightarrow> Inl e
      | Inr dataInt16 \<Rightarrow>
          (let frameCount = real (length dataInt16) / real numChannels in
           case createBuffer numChannels frameCount rate of
             Inl e \<Rightarrow> Inl e
           | Inr buffer \<Rightarrow>
               Inr (foldl (\<lambda>buffer channel.
                      buffer\<lparr>channelData := (channelData buffer)
                        [channel := fill_channel dataInt16 numChannels frameCount channel
                                      (channelData buffer ! channel)]\<rparr>)
                    buffer [0..<numChannels])))"

text \<open>
  \<^verbatim>\<open>float32ToPCM16(float32Array)\<close>.  Storing a number into an \<^verbatim>\<open>Int16Array\<close> truncates
  it towards zero and keeps the low 16 bits.  The bytes of the array are its elements in
  little-endian order; \<^verbatim>\<open>String.fromCharCode\<close> turns each byte into one character, and the
  platform's \<^verbatim>\<open>btoa\<close> is a parameter.
\<close>

definition trunc :: "real \<Rightarrow> int" where
  "trunc x = (if 0 \<le> x then \<lfloor>x\<rfloor> else \<lceil>x\<rceil>)"

definition quantize :: "real \<Rightarrow> int16" where
  "quantize x =
     (let s = max (-1) (min 1 x)
      in word_of_int (trunc (if s < 0 then s * 32768 else s * 32767)))"

definition int16_bytes :: "int16 \<Rightarrow> byte list" where
  "int16_bytes w = [word_of_nat (unat w mod 256), word_of_nat (unat w div 256)]"

definition pcm16_bytes :: "real list \<Rightarrow> byte list" where
  "pcm16_bytes float32Array =
     (let int16Array = map quantize float32Array
      in concat (map int16_bytes int16Array))"

definition float32ToPCM16 :: "(binary_string \<Rightarrow> string) \<Rightarrow> real list \<Rightarrow> string" where
  "float32ToPCM16 btoa float32Array =
     (let bytes = pcm16_bytes float32Array
      in btoa (map unat bytes))"

section \<open>Playback scheduler (class StreamAudioPlayer, src/utils/audioUtils.ts)\<close>

text \<open>
  An \<^verbatim>\<open>AudioBufferSourceNode\<close> is an object: its identity is the number of nodes created
  before it.  The player keeps the fields of the class; the calls it makes on its
  collaborators are logged: \<open>notified\<close> holds the arguments of the calls of
  \<^verbatim>\<open>onPlayStateChange\<close> in order, \<open>stopped\<close> the nodes on which \<^verbatim>\<open>source.stop()\<close> was
  called.  The field \<open>onPlayStateChange\<close> says whether the constructor was given an
  observer.  The audio clock \<^verbatim>\<open>ctx.currentTime\<close> is an input of \<open>queueAudio\<close>.
\<close>

record audio_source =
  node_id :: nat
  buffer :: audio_buffer
  startTime :: real

record stream_audio_player =
  audioContext :: "real option"
  nextStartTime :: real
  sources :: "audio_source list"
  isPlaying :: bool
  onPlayStateChange :: bool
  notified :: "bool list"
  stopped :: "nat list"
  created :: nat

definition StreamAudioPlayer :: "bool \<Rightarrow> stream_audio_player" where
  "StreamAudioPlayer observer =
     \<lparr>audioContext = None, nextStartTime = 0, sources = [], isPlaying = False,
      onPlayStateChange = observer, notified = [], stopped = [], created = 0\<rparr>"

text \<open>\<^verbatim>\<open>this.onPlayStateChange?.(b)\<close>.\<close>

definition notify :: "bool \<Rightarrow> stream_audio_player \<Rightarrow> stream_audio_player" where
  "notify b p = (if onPlayStateChange p then p\<lparr>notified := notified p @ [b]\<rparr> else p)"

text \<open>\<^verbatim>\<open>initContext()\<close>: the context is created on first use, at 24000 Hz.\<close>

definition initContext :: "stream_audio_player \<Rightarrow> stream_audio_player" where
  "initContext p = (if audioContext p = None then p\<lparr>audioContext := Some 24000\<rparr> else p)"

text \<open>
  \<^verbatim>\<open>queueAudio(base64Audio)\<close>, with the clock reading \<open>currentTime\<close>.  The only \<^verbatim>\<open>await\<close>
  is on \<open>decodeAudioData\<close>, which does no asynchronous work: the rest of the call runs
  as a microtask, before any other event handler, so the call is one step.  A throw of
  \<open>decode\<close> or \<open>decodeAudioData\<close> rejects the promise of the call, which no caller
  handles: the error is returned and the fields are as they were at the throw.
\<close>

definition queueAudio ::
  "(string \<Rightarrow> binary_string option) \<Rightarrow> real \<Rightarrow> string \<Rightarrow> stream_audio_player
     \<Rightarrow> error option \<times> stream_audio_player" where
  "queueAudio atob currentTime base64Audio p =
     (let p1 = initContext p in
      case decode atob base64Audio of
        Inl e \<Rightarrow> (Some e, p1)
      | Inr audioBytes \<Rightarrow>
          (case decodeAudioData audioBytes 24000 1 of
             Inl e \<Rightarrow> (Some e, p1)
           | Inr audioBuffer \<Rightarrow>
               (let p2 = (if nextStartTime p1 < currentTime
                          then p1\<lparr>nextStartTime := currentTime\<rparr> else p1);
                    source = \<lparr>node_id = created p2, buffer = audioBuffer,
                              startTime = nextStartTime p2\<rparr>;
                    p3 = p2\<lparr>created := Suc (created p2), sources := sources p2 @ [source]\<rparr>;
                    p4 = p3\<lparr>nextStartTime := nextStartTime p3 + duration audioBuffer\<rparr>
                in (None, if \<not> isPlaying p4 then notify True (p4\<lparr>isPlaying := True\<rparr>)
                          else p4))))"

text \<open>The \<^verbatim>\<open>onended\<close> handler of the node \<open>i\<close>.\<close>

definition onended :: "nat \<Rightarrow> stream_audio_player \<Rightarrow> stream_audio_player" where
  "onended i p =
     (let p1 = p\<lparr>sources := filter (\<lambda>s. node_id s \<noteq> i) (sources p)\<rparr>
      in if length (sources p1) = 0 then notify False (p1\<lparr>isPlaying := False\<rparr>) else p1)"

text \<open>\<^verbatim>\<open>stop()\<close>.\<close>

definition stop :: "stream_audio_player \<Rightarrow> stream_audio_player" where
  "stop p =
     (let p1 = p\<lparr>stopped := stopped p @ map node_id (sources p)\<rparr>;
          p2 = p1\<lparr>sources := []\<rparr>;
          p3 = p2\<lparr>nextStartTime := 0\<rparr>;
          p4 = p3\<lparr>isPlaying := False\<rparr>
      in notify False p4)"


text \<open>The operations of the scheduler, for arbitrary interleavings.\<close>

datatype player_op = QueueAudio real string | Stop | Ended nat

fun player_step ::
  "(string \<Rightarrow> binary_string option) \<Rightarrow> player_op \<Rightarrow> stream_audio_player \<Rightarrow> stream_audio_player" where
  "player_step atob (QueueAudio currentTime base64Audio) p =
     snd (queueAudio atob currentTime base64Audio p)"
| "player_step atob Stop p = stop p"
| "player_step atob (Ended i) p = onended i p"

section \<open>Session service (class LiveSessionService, src/services/geminiService.ts)\<close>

text \<open>
  The source file holds the class twice.  The model is of the first one (lines 37 to 213),
  the one with the field \<^verbatim>\<open>isConnected\<close>, whose \<^verbatim>\<open>disconnect()\<close> closes the session, cleans
  up and calls \<^verbatim>\<open>onClose\<close>.

  The text of a transcript is a JavaScript string: a list of 16-bit code units.
\<close>

type_synonym jsstring = "16 word list"

definition str :: "string \<Rightarrow> jsstring" where
  "str cs = map of_char cs"

datatype speaker = User | Coach

text \<open>
  The callbacks the service was constructed with belong to its caller.  The service logs
  each call of one of them, in order, in \<open>emitted\<close>; the caller's handlers are applied to
  the log entries in the section on the application.
\<close>

datatype callback =
    OnAudioData string
  | OnTranscriptUpdate speaker jsstring bool
  | OnClose

text \<open>
  The device handles the service acquires: the input \<^verbatim>\<open>AudioContext\<close>, the microphone
  \<^verbatim>\<open>MediaStream\<close> and the \<^verbatim>\<open>ScriptProcessorNode\<close>.  \<open>acquired\<close> logs each acquisition,
  \<open>released\<close> each release (\<^verbatim>\<open>track.stop()\<close> on the tracks of the stream,
  \<^verbatim>\<open>processor.disconnect()\<close>, \<^verbatim>\<open>inputAudioContext.close()\<close>), \<open>sessionCloseCalls\<close> counts
  the calls of \<^verbatim>\<open>activeSession.close()\<close>.
\<close>

datatype handle = InputAudioContext | MicStream | ScriptProcessor

datatype live_session = LiveSession

text \<open>
  \<^verbatim>\<open>connect()\<close> is asynchronous: it runs up to an \<^verbatim>\<open>await\<close>, and other handlers run before
  it is resumed.  \<open>connect_pc\<close> is the point where it waits.
\<close>

datatype connect_pc = NotCalled | AwaitGetUserMedia | AwaitSession | AwaitResume | Returned

record live_session_service =
  activeSession :: "live_session option"
  inputAudioContext :: "handle option"
  stream :: "handle option"
  processor :: "handle option"
  isConnected :: bool
  connect_pc :: connect_pc
  emitted :: "callback list"
  acquired :: "handle list"
  released :: "handle list"
  sessionCloseCalls :: nat

definition LiveSessionService :: live_session_service where
  "LiveSessionService =
     \<lparr>activeSession = None, inputAudioContext = None, stream = None, processor = None,
      isConnected = False, connect_pc = NotCalled, emitted = [], acquired = [],
      released = [], sessionCloseCalls = 0\<rparr>"

text \<open>\<^verbatim>\<open>cleanup()\<close>: each field that holds a handle is released and set to \<^verbatim>\<open>null\<close>.\<close>

definition cleanup :: "live_session_service \<Rightarrow> live_session_service" where
  "cleanup s =
     (let s1 = (case stream s of
                  Some h \<Rightarrow> s\<lparr>released := released s @ [h], stream := None\<rparr>
                | None \<Rightarrow> s);
          s2 = (case processor s1 of
                  Some h \<Rightarrow> s1\<lparr>released := released s1 @ [h], processor := None\<rparr>
                | None \<Rightarrow> s1)
      in case inputAudioContext s2 of
           Some h \<Rightarrow> s2\<lparr>released := released s2 @ [h], inputAudioContext := None\<rparr>
         | None \<Rightarrow> s2)"

text \<open>\<^verbatim>\<open>disconnect()\<close>.  A throw of \<^verbatim>\<open>activeSession.close()\<close> is caught and has no effect.\<close>

definition disconnect :: "live_session_service \<Rightarrow> live_session_service" where
  "disconnect s =
     (let s1 = s\<lparr>isConnected := False\<rparr>;
          s2 = (case activeSession s1 of
                  Some _ \<Rightarrow> s1\<lparr>sessionCloseCalls := Suc (sessionCloseCalls s1),
                               activeSession := None\<rparr>
                | None \<Rightarrow> s1);
          s3 = cleanup s2
      in s3\<lparr>emitted := emitted s3 @ [OnClose]\<rparr>)"

text \<open>
  The part of \<^verbatim>\<open>startAudioPipeline()\<close> after the context is known to run: the media
  stream source and the processor are created.  After an \<^verbatim>\<open>await\<close> the fields may have
  been set to \<^verbatim>\<open>null\<close> by a \<open>disconnect\<close>: the call on \<^verbatim>\<open>null\<close> throws \<^verbatim>\<open>TypeError\<close>, which
  the \<^verbatim>\<open>catch\<close> of \<open>connect\<close> answers with \<open>disconnect\<close>.
\<close>

definition createProcessor :: "live_session_service \<Rightarrow> live_session_service" where
  "createProcessor s =
     (if inputAudioContext s = None \<or> stream s = None
      then disconnect (s\<lparr>connect_pc := Returned\<rparr>)
      else s\<lparr>processor := Some ScriptProcessor, acquired := acquired s @ [ScriptProcessor],
             connect_pc := Returned\<rparr>)"

text \<open>\<^verbatim>\<open>startAudioPipeline()\<close>; \<open>suspended\<close> is the state of the input context.\<close>

definition startAudioPipeline :: "bool \<Rightarrow> live_session_service \<Rightarrow> live_session_service" where
  "startAudioPipeline suspended s =
     (if inputAudioContext s = None \<or> stream s = None \<or> activeSession s = None
      then s\<lparr>connect_pc := Returned\<rparr>
      else if suspended then s\<lparr>connect_pc := AwaitResume\<rparr>
      else createProcessor s)"

text \<open>
  A message of the server, reduced to the three fields \<open>handleMessage\<close> reads:
  \<^verbatim>\<open>modelTurn.parts[0].inlineData.data\<close>, \<^verbatim>\<open>outputTranscription.text\<close> and
  \<^verbatim>\<open>inputTranscription.text\<close>; \<open>None\<close> where the optional chain ends.  An empty string is
  falsy.
\<close>

record server_message =
  inlineData :: "string option"
  outputTranscription :: "jsstring option"
  inputTranscription :: "jsstring option"

definition handleMessage :: "server_message \<Rightarrow> live_session_service \<Rightarrow> live_session_service" where
  "handleMessage message s =
     (let s1 = (case inlineData message of
                  Some audioData \<Rightarrow>
                    if audioData \<noteq> [] then s\<lparr>emitted := emitted s @ [OnAudioData audioData]\<rparr>
                    else s
                | None \<Rightarrow> s);
          s2 = (case outputTranscription message of
                  Some t \<Rightarrow>
                    if t \<noteq> [] then s1\<lparr>emitted := emitted s1 @ [OnTranscriptUpdate Coach t False]\<rparr>
                    else s1
                | None \<Rightarrow> s1)
      in case inputTranscription message of
           Some t \<Rightarrow>
             if t \<noteq> [] then s2\<lparr>emitted := emitted s2 @ [OnTranscriptUpdate User t False]\<rparr>
             else s2
         | None \<Rightarrow> s2)"

text \<open>
  What happens to one service object.  \<open>Connect ok\<close> is the call of \<^verbatim>\<open>connect()\<close> up to its
  first \<^verbatim>\<open>await\<close> (\<open>ok\<close>: the constructor of the input context does not throw); the next six
  events settle the promise \<open>connect\<close> waits for (\<^verbatim>\<open>getUserMedia\<close>, \<^verbatim>\<open>ai.live.connect\<close> with
  the state of the input context at that moment, \<^verbatim>\<open>inputAudioContext.resume()\<close>);
  \<open>ExplicitDisconnect\<close> is a call of \<^verbatim>\<open>disconnect()\<close> by the application;
  \<open>TransportClose\<close> and \<open>TransportError\<close> are the \<^verbatim>\<open>onclose\<close> and \<^verbatim>\<open>onerror\<close> callbacks of
  the transport, \<open>ServerMessage\<close> its \<^verbatim>\<open>onmessage\<close>.  An event for a promise \<open>connect\<close> does
  not wait for changes nothing.  \<^verbatim>\<open>connect()\<close> is called once on an object: the
  application creates a new service for every session.  \<^verbatim>\<open>activeSession.close()\<close> on
  the session that has just been opened does not throw.  The capture callback
  \<^verbatim>\<open>onaudioprocess\<close> changes no field and is left out.
\<close>

datatype event =
    Connect bool
  | GetUserMediaResolved
  | GetUserMediaRejected
  | SessionResolved bool
  | SessionRejected
  | ResumeResolved
  | ResumeRejected
  | ExplicitDisconnect
  | TransportClose
  | TransportError
  | ServerMessage server_message

fun step :: "event \<Rightarrow> live_session_service \<Rightarrow> live_session_service" where
  "step (Connect ok) s =
     (if connect_pc s \<noteq> NotCalled then s
      else if ok
      then s\<lparr>isConnected := True, inputAudioContext := Some InputAudioContext,
             acquired := acquired s @ [InputAudioContext], connect_pc := AwaitGetUserMedia\<rparr>
      else disconnect (s\<lparr>isConnected := True, connect_pc := Returned\<rparr>))"
| "step GetUserMediaResolved s =
     (if connect_pc s \<noteq> AwaitGetUserMedia then s
      else s\<lparr>stream := Some MicStream, acquired := acquired s @ [MicStream],
             connect_pc := AwaitSession\<rparr>)"
| "step GetUserMediaRejected s =
     (if connect_pc s \<noteq> AwaitGetUserMedia then s
      else disconnect (s\<lparr>connect_pc := Returned\<rparr>))"
| "step (SessionResolved suspended) s =
     (if connect_pc s \<noteq> AwaitSession then s
      else (let s1 = s\<lparr>activeSession := Some LiveSession\<rparr>
            in if isConnected s1 then startAudioPipeline suspended s1
               else s1\<lparr>sessionCloseCalls := Suc (sessionCloseCalls s1),
                       connect_pc := Returned\<rparr>))"
| "step SessionRejected s =
     (if connect_pc s \<noteq> AwaitSession then s
      else disconnect (s\<lparr>connect_pc := Returned\<rparr>))"
| "step ResumeResolved s =
     (if connect_pc s \<noteq> AwaitResume then s else createProcessor s)"
| "step ResumeRejected s =
     (if connect_pc s \<noteq> AwaitResume then s
      else disconnect (s\<lparr>connect_pc := Returned\<rparr>))"
| "step ExplicitDisconnect s = disconnect s"
| "step TransportClose s = disconnect s"
| "step TransportError s = disconnect s"
| "step (ServerMessage message) s = handleMessage message s"

fun run :: "event list \<Rightarrow> live_session_service \<Rightarrow> live_session_service" where
  "run [] s = s"
| "run (e # es) s = run es (step e s)"

text \<open>The number of calls of \<^verbatim>\<open>callbacks.onClose()\<close> so far.\<close>

definition onCloseCalls :: "live_session_service \<Rightarrow> nat" where
  "onCloseCalls s = count_list (emitted s) OnClose"

text \<open>
  The events that start a teardown in a state: the explicit call, the close and the
  error of the transport, and a failure of \<open>connect\<close> where it stands.
\<close>

fun teardown :: "event \<Rightarrow> live_session_service \<Rightarrow> bool" where
  "teardown (Connect ok) s = (connect_pc s = NotCalled \<and> \<not> ok)"
| "teardown GetUserMediaResolved s = False"
| "teardown GetUserMediaRejected s = (connect_pc s = AwaitGetUserMedia)"
| "teardown (SessionResolved suspended) s = False"
| "teardown SessionRejected s = (connect_pc s = AwaitSession)"
| "teardown ResumeResolved s =
     (connect_pc s = AwaitResume \<and> (inputAudioContext s = None \<or> stream s = None))"
| "teardown ResumeRejected s = (connect_pc s = AwaitResume)"
| "teardown ExplicitDisconnect s = True"
| "teardown TransportClose s = True"
| "teardown TransportError s = True"
| "teardown (ServerMessage message) s = False"

fun teardowns :: "event list \<Rightarrow> live_session_service \<Rightarrow> nat" where
  "teardowns [] s = 0"
| "teardowns (e # es) s = (if teardown e s then 1 else 0) + teardowns es (step e s)"

text \<open>The handles a service holds in its fields.\<close>

definition held :: "live_session_service \<Rightarrow> handle list" where
  "held s =
     (case stream s of Some h \<Rightarrow> [h] | None \<Rightarrow> []) @
     (case processor s of Some h \<Rightarrow> [h] | None \<Rightarrow> []) @
     (case inputAudioContext s of Some h \<Rightarrow> [h] | None \<Rightarrow> [])"

section \<open>Transcript aggregation and session control (src/App.tsx, src/types.ts)\<close>

text \<open>
  \<^verbatim>\<open>String.prototype.trim\<close> removes the white space and line terminators of ECMAScript
  from both ends.
\<close>

definition isWhiteSpace :: "16 word \<Rightarrow> bool" where
  "isWhiteSpace c \<longleftrightarrow>
     c \<in> {0x09, 0x0A, 0x0B, 0x0C, 0x0D, 0x20, 0xA0, 0x1680, 0x2028, 0x2029, 0x202F, 0x205F,
          0x3000, 0xFEFF}
     \<or> (0x2000 \<le> c \<and> c \<le> 0x200A)"

definition trim :: "jsstring \<Rightarrow> jsstring" where
  "trim t = rev (dropWhile isWhiteSpace (rev (dropWhile isWhiteSpace t)))"

text \<open>\<^verbatim>\<open>Number.prototype.toString\<close> on a natural number: its decimal digits.\<close>

function toString :: "nat \<Rightarrow> string" where
  "toString n =
     (if n < 10 then [''0123456789'' ! n]
      else toString (n div 10) @ [''0123456789'' ! (n mod 10)])"
  by pat_completeness auto
termination
  by (relation "measure (\<lambda>n. n)") auto

declare toString.simps [simp del]

record message =
  msg_id :: string
  speaker :: speaker
  msg_text :: jsstring
  timestamp :: nat

record session_state =
  isActive :: bool
  isProcessing :: bool
  isSpeaking :: bool

text \<open>
  The state of the component \<open>App\<close> once it is mounted: the three React states, the
  player (created by the mount effect, with an observer) and the current service.  State
  updates take effect in the order of the calls, and an updater function runs once.
\<close>

record app =
  messages :: "message list"
  sessionState :: session_state
  currentTranscript :: "(speaker \<times> jsstring) option"
  audioPlayerRef :: stream_audio_player
  liveSessionRef :: "live_session_service option"

definition inactive :: session_state where
  "inactive = \<lparr>isActive = False, isProcessing = False, isSpeaking = False\<rparr>"

definition App :: app where
  "App = \<lparr>messages = [], sessionState = inactive, currentTranscript = None,
          audioPlayerRef = StreamAudioPlayer True, liveSessionRef = None\<rparr>"

text \<open>
  \<^verbatim>\<open>addMessageToHistory(speaker, text)\<close>; \<open>now\<close> is the reading of \<^verbatim>\<open>Date.now()\<close>, taken to
  be the same for the id and the timestamp.
\<close>

definition addMessageToHistory :: "nat \<Rightarrow> speaker \<Rightarrow> jsstring \<Rightarrow> app \<Rightarrow> app" where
  "addMessageToHistory now sp t a =
     (if trim t = [] then a
      else a\<lparr>messages := messages a @
               [\<lparr>msg_id = toString now, speaker = sp, msg_text = t, timestamp = now\<rparr>]\<rparr>)"

text \<open>The callback \<^verbatim>\<open>onTranscriptUpdate(speaker, text, isFinal)\<close>.\<close>

definition onTranscriptUpdate :: "nat \<Rightarrow> speaker \<Rightarrow> jsstring \<Rightarrow> bool \<Rightarrow> app \<Rightarrow> app" where
  "onTranscriptUpdate now sp t isFinal a =
     (case currentTranscript a of
        Some (prev_speaker, prev_text) \<Rightarrow>
          if prev_speaker \<noteq> sp
          then (addMessageToHistory now prev_speaker prev_text a)\<lparr>currentTranscript := Some (sp, t)\<rparr>
          else a\<lparr>currentTranscript := Some (sp, prev_text @ t)\<rparr>
      | None \<Rightarrow> a\<lparr>currentTranscript := Some (sp, t)\<rparr>)"

text \<open>
  A call on the player, followed by what its observer does with each new notification:
  \<^verbatim>\<open>setSessionState(prev => ({...prev, isSpeaking: isPlaying}))\<close>.
\<close>

definition with_player :: "(stream_audio_player \<Rightarrow> stream_audio_player) \<Rightarrow> app \<Rightarrow> app" where
  "with_player f a =
     (let p = f (audioPlayerRef a);
          new = drop (length (notified (audioPlayerRef a))) (notified p)
      in a\<lparr>audioPlayerRef := p,
           sessionState := foldl (\<lambda>st b. st\<lparr>isSpeaking := b\<rparr>) (sessionState a) new\<rparr>)"

text \<open>The callbacks \<^verbatim>\<open>onAudioData\<close> and \<^verbatim>\<open>onClose\<close>.\<close>

definition onAudioData ::
  "(string \<Rightarrow> binary_string option) \<Rightarrow> real \<Rightarrow> string \<Rightarrow> app \<Rightarrow> app" where
  "onAudioData atob currentTime base64Data a =
     with_player (\<lambda>p. snd (queueAudio atob currentTime base64Data p)) a"

definition onClose :: "app \<Rightarrow> app" where
  "onClose a = with_player stop (a\<lparr>sessionState := inactive\<rparr>)"





text \<open>A sequence of transcript deltas, each with its clock reading.\<close>

fun deltas :: "(nat \<times> speaker \<times> jsstring) list \<Rightarrow> app \<Rightarrow> app" where
  "deltas [] a = a"
| "deltas ((now, sp, t) # ds) a = deltas ds (onTranscriptUpdate now sp t False a)"

section \<open>Notions used in the statements\<close>

text \<open>A sequence of operations of the scheduler.\<close>

definition player_run ::
  "(string \<Rightarrow> binary_string option) \<Rightarrow> player_op list \<Rightarrow> stream_audio_player
     \<Rightarrow> stream_audio_player" where
  "player_run atob ops p = fold (player_step atob) ops p"



text \<open>
  The platform's \<^verbatim>\<open>atob\<close> and \<^verbatim>\<open>btoa\<close> are parameters of the model.  Where an example
  needs them, they are given by a table: some Base64 texts and the bytes they encode.
\<close>

definition base64_examples :: "(string \<times> binary_string) list" where
  "base64_examples =
     [(''AAA='', [0, 0]), (''AEA='', [0, 64]), (''AA=='', [0]),
      (''AQACAAMA'', [1, 0, 2, 0, 3, 0]), (''/z8A4A=='', [255, 63, 0, 224])]"

definition atob_examples :: "string \<Rightarrow> binary_string option" where
  "atob_examples base64 = map_of base64_examples base64"

definition btoa_examples :: "binary_string \<Rightarrow> string" where
  "btoa_examples bs =
     (case map_of (map (\<lambda>(t, b). (b, t)) base64_examples) bs of Some t \<Rightarrow> t | None \<Rightarrow> [])"


text \<open>
  The bookkeeping of the service, true in every state a service can reach: what was
  acquired is what was released together with what the fields hold, nothing was acquired
  twice, \<open>connect\<close> has acquired no more than the point where it stands allows, and every
  field holds a handle of its own kind.
\<close>

definition service_inv :: "live_session_service \<Rightarrow> bool" where
  "service_inv s \<longleftrightarrow>
     mset (acquired s) = mset (released s) + mset (held s)
     \<and> distinct (acquired s)
     \<and> (connect_pc s = NotCalled \<longrightarrow> acquired s = [])
     \<and> (connect_pc s = AwaitGetUserMedia \<longrightarrow> MicStream \<notin> set (acquired s))
     \<and> (connect_pc s \<noteq> Returned \<longrightarrow> ScriptProcessor \<notin> set (acquired s))
     \<and> (stream s = None \<or> stream s = Some MicStream)
     \<and> (processor s = None \<or> processor s = Some ScriptProcessor)
     \<and> (inputAudioContext s = None \<or> inputAudioContext s = Some InputAudioContext)"

section \<open>Properties of the codec\<close>

subsection \<open>The 16-bit view and the two loops of \<open>decodeAudioData\<close>\<close>

lemma le16_int16_bytes: "le16 (int16_bytes w @ rest) = w # le16 rest"
proof -
  have "unat w < 65536" using unsigned_less [of w, where ?'a = nat] by simp
  then have a: "unat w div 256 < 256" by simp
  have "unat (word_of_nat (unat w mod 256) :: byte) = unat w mod 256"
    by (simp add: unat_of_nat)
  moreover have "unat (word_of_nat (unat w div 256) :: byte) = unat w div 256"
    using a by (simp add: unat_of_nat)
  ultimately show ?thesis by (simp add: int16_bytes_def)
qed

lemma le16_concat: "le16 (concat (map int16_bytes ws)) = ws"
proof (induction ws)
  case Nil show ?case by simp
next
  case (Cons w ws)
  then show ?case using le16_int16_bytes [of w "concat (map int16_bytes ws)"] by simp
qed

lemma length_int16_bytes: "length (concat (map int16_bytes ws)) = 2 * length ws"
  by (induction ws) (simp_all add: int16_bytes_def)

lemma length_le16: "length (le16 bs) = length bs div 2"
  by (induction bs rule: le16.induct) simp_all

lemma upd_loop_length: "length (foldl (\<lambda>cd i. cd[i := g i]) cd [0..<m]) = length cd"
  by (induction m) simp_all

lemma upd_loop_nth:
  "j < length cd \<Longrightarrow> foldl (\<lambda>cd i. cd[i := g i]) cd [0..<m] ! j = (if j < m then g j else cd ! j)"
  by (induction m) (auto simp: upd_loop_length nth_list_update less_Suc_eq)


lemma chan_loop_fields:
  "numberOfChannels (foldl (\<lambda>buffer channel. buffer\<lparr>channelData := (channelData buffer)[channel := F channel (channelData buffer ! channel)]\<rparr>) b [0..<m]) = numberOfChannels b"
  "buf_length (foldl (\<lambda>buffer channel. buffer\<lparr>channelData := (channelData buffer)[channel := F channel (channelData buffer ! channel)]\<rparr>) b [0..<m]) = buf_length b"
  "sampleRate (foldl (\<lambda>buffer channel. buffer\<lparr>channelData := (channelData buffer)[channel := F channel (channelData buffer ! channel)]\<rparr>) b [0..<m]) = sampleRate b"
  "length (channelData (foldl (\<lambda>buffer channel. buffer\<lparr>channelData := (channelData buffer)[channel := F channel (channelData buffer ! channel)]\<rparr>) b [0..<m])) = length (channelData b)"
  by (induction m) simp_all

lemma chan_loop_nth:
  "ch < length (channelData b) \<Longrightarrow>
   channelData (foldl (\<lambda>buffer channel. buffer\<lparr>channelData := (channelData buffer)[channel := F channel (channelData buffer ! channel)]\<rparr>) b [0..<m]) ! ch
     = (if ch < m then F ch (channelData b ! ch) else channelData b ! ch)"
  by (induction m) (auto simp: chan_loop_fields nth_list_update less_Suc_eq)


lemma frames_floor: "nat \<lfloor>real n / real c\<rfloor> = n div c"
  by (simp add: floor_divide_of_nat_eq)

lemma frames_ceiling: "n div c \<le> nat \<lceil>real n / real c\<rceil>"
proof -
  have "\<lfloor>real n / real c\<rfloor> \<le> \<lceil>real n / real c\<rceil>" by (rule floor_le_ceiling)
  then have "nat \<lfloor>real n / real c\<rfloor> \<le> nat \<lceil>real n / real c\<rceil>" by (rule nat_mono)
  then show ?thesis by (simp add: frames_floor)
qed

lemma frame_index: 
  assumes "j < n div c" "ch < c"
  shows "j * c + ch < (n::nat)"
proof -
  have "j * c + ch < Suc j * c" using assms by simp
  also have "\<dots> \<le> (n div c) * c" using assms by (intro mult_le_mono1) simp
  also have "\<dots> \<le> n" by simp
  finally show ?thesis .
qed

lemma decodeAudioData_fails:
  "isl (decodeAudioData data rate c) \<longleftrightarrow>
     odd (length data) \<or> c = 0 \<or> length data div 2 div c = 0 \<or> rate \<le> 0"
  by (auto simp: decodeAudioData_def Int16Array_def createBuffer_def Let_def frames_floor length_le16
      div_greater_zero_iff split: sum.splits)

lemma decodeAudioData_ok:
  assumes ok: "decodeAudioData data rate c = Inr buf"
  shows "numberOfChannels buf = c \<and> buf_length buf = length data div 2 div c \<and> sampleRate buf = rate
    \<and> length (channelData buf) = c
    \<and> (\<forall>ch<c. length (channelData buf ! ch) = length data div 2 div c
         \<and> (\<forall>j < length data div 2 div c.
               channelData buf ! ch ! j =
                 Sample (real_of_int (sint (le16 data ! (j * c + ch))) / 32768)))"
proof -
  let ?d = "le16 data"
  let ?n = "length data div 2"
  let ?f = "real (length ?d) / real c"
  let ?b = "\<lparr>numberOfChannels = c, buf_length = ?n div c, sampleRate = rate,
             channelData = replicate c (replicate (?n div c) (Sample 0))\<rparr>"
  let ?loop = "foldl (\<lambda>buffer channel. buffer\<lparr>channelData := (channelData buffer)
                 [channel := fill_channel ?d c ?f channel (channelData buffer ! channel)]\<rparr>) ?b [0..<c]"
  from ok have "\<not> isl (decodeAudioData data rate c)" by simp
  then have cond: "even (length data)" "c \<noteq> 0" "?n div c \<noteq> 0" "\<not> rate \<le> 0"
    by (simp_all add: decodeAudioData_fails)
  have cb: "createBuffer c ?f rate = Inr ?b"
    using cond by (simp add: createBuffer_def frames_floor length_le16)
  have buf: "buf = ?loop"
    using ok cond cb by (simp add: decodeAudioData_def Int16Array_def Let_def)
  have chan: "length (channelData ?loop ! ch) = ?n div c
        \<and> (\<forall>j < ?n div c. channelData ?loop ! ch ! j =
                 Sample (real_of_int (sint (?d ! (j * c + ch))) / 32768))" if ch: "ch < c" for ch
  proof -
    have eq: "channelData ?loop ! ch = fill_channel ?d c ?f ch (replicate (?n div c) (Sample 0))"
      using ch by (simp add: chan_loop_nth)
    have len: "length (channelData ?loop ! ch) = ?n div c"
      by (subst eq) (simp add: fill_channel_def upd_loop_length)
    have "channelData ?loop ! ch ! j = Sample (real_of_int (sint (?d ! (j * c + ch))) / 32768)"
      if j: "j < ?n div c" for j
    proof -
      have jm: "j < nat \<lceil>?f\<rceil>"
        using j frames_ceiling [of ?n c] by (simp add: length_le16)
      have k: "j * c + ch < length ?d"
        using frame_index [OF j ch] by (simp add: length_le16)
      show ?thesis
        using j jm k by (subst eq) (simp add: fill_channel_def upd_loop_nth read_sample_def)
    qed
    with len show ?thesis by blast
  qed
  show ?thesis
    unfolding buf using chan by (simp add: chan_loop_fields)
qed

lemma sample_range: "- 1 \<le> real_of_int (sint (w::int16)) / 32768 \<and> real_of_int (sint w) / 32768 \<le> 32767 / 32768"
proof -
  have "- 32768 \<le> sint w" using sint_ge [of w] by simp
  moreover have "sint w \<le> 32767" using sint_lt [of w] by simp
  ultimately have "real_of_int (- 32768) \<le> real_of_int (sint w)"
    and "real_of_int (sint w) \<le> real_of_int 32767"
    by (simp_all only: of_int_le_iff)
  then show ?thesis by (simp del: of_int_sint)
qed

lemma upt_two: "[0..<(2::nat)] = [0, 1]"
  by (simp add: upt_conv_Cons)

lemma replicate_two: "replicate 2 x = [x, x]"
  by (simp add: numeral_2_eq_2)

subsection \<open>Quantisation\<close>

lemma trunc_bounds:
  assumes "- 1 \<le> x" "x \<le> 1"
  shows "- 32768 \<le> trunc (if x < 0 then x * 32768 else x * 32767)"
    and "trunc (if x < 0 then x * 32768 else x * 32767) \<le> 32767"
  using assms by (auto simp: trunc_def le_floor_iff floor_le_iff le_ceiling_iff ceiling_le_iff)

lemma sint_quantize:
  assumes "- 1 \<le> x" "x \<le> 1"
  shows "sint (quantize x) = trunc (if x < 0 then x * 32768 else x * 32767)"
proof -
  let ?k = "trunc (if x < 0 then x * 32768 else x * 32767)"
  have "signed_take_bit 15 ?k = ?k"
    using trunc_bounds [OF assms] by (intro signed_take_bit_int_eq_self) simp_all
  then show ?thesis using assms by (simp add: quantize_def sint_sbintrunc')
qed

lemma quantize_error_neg:
  assumes "- 1 \<le> x" "x < 0"
  shows "\<bar>real_of_int (sint (quantize x)) / 32768 - x\<bar> < 1 / 32768"
proof -
  define q where "q = real_of_int \<lceil>x * 32768\<rceil>"
  have a: "x * 32768 \<le> q" and b: "q < x * 32768 + 1"
    unfolding q_def by linarith+
  have "sint (quantize x) = \<lceil>x * 32768\<rceil>"
    using assms by (simp add: sint_quantize trunc_def)
  then have "real_of_int (sint (quantize x)) = q"
    by (simp only: q_def)
  moreover have "\<bar>q / 32768 - x\<bar> < 1 / 32768"
    using a b by (simp add: abs_less_iff)
  ultimately show ?thesis by (simp only:)
qed

lemma quantize_error_pos:
  assumes "0 \<le> x" "x \<le> 1"
  shows "\<bar>real_of_int (sint (quantize x)) / 32768 - x\<bar> < 2 / 32768"
proof -
  define q where "q = real_of_int \<lfloor>x * 32767\<rfloor>"
  have a: "q \<le> x * 32767" and b: "x * 32767 < q + 1"
    unfolding q_def by linarith+
  have "sint (quantize x) = \<lfloor>x * 32767\<rfloor>"
    using assms by (simp add: sint_quantize trunc_def)
  then have "real_of_int (sint (quantize x)) = q"
    by (simp only: q_def)
  moreover have "\<bar>q / 32768 - x\<bar> < 2 / 32768"
    using a b assms by (simp add: abs_less_iff)
  ultimately show ?thesis by (simp only:)
qed

lemma quantize_error:
  assumes "- 1 \<le> x" "x \<le> 1"
  shows "\<bar>real_of_int (sint (quantize x)) / 32768 - x\<bar> < 2 / 32768"
proof (cases "x < 0")
  case True
  then show ?thesis using quantize_error_neg [of x] assms by linarith
next
  case False
  then show ?thesis using quantize_error_pos [of x] assms by simp
qed


lemma le16_pcm16_bytes: "le16 (pcm16_bytes xs) = map quantize xs"
  by (simp add: pcm16_bytes_def le16_concat del: map_map)

lemma length_pcm16_bytes: "length (pcm16_bytes xs) = 2 * length xs"
  by (simp add: pcm16_bytes_def length_int16_bytes del: map_map)

lemma bytes_of_codes: "map word_of_nat (map unat (bs :: byte list)) = bs"
  by (induction bs) simp_all

subsection \<open>Range of the decoded samples\<close>

text \<open>
  Claim C10.  For every byte payload the decoder accepts and every channel count of at
  least 1, every sample of every channel of the decoded buffer is a number (never \<^verbatim>\<open>NaN\<close>)
  between \<open>-32768/32768\<close> and \<open>32767/32768\<close>, so it lies in the interval from \<open>-1\<close>
  (included) to \<open>1\<close> (excluded).
\<close>

theorem decodeAudioData_samples_in_range:
  assumes "decodeAudioData data rate numChannels = Inr buf" and "1 \<le> numChannels"
  shows "\<forall>cd \<in> set (channelData buf). \<forall>s \<in> set cd.
           \<exists>r. s = Sample r \<and> - 1 \<le> r \<and> r \<le> 32767 / 32768 \<and> r < 1"
proof (intro ballI)
  fix cd s assume cd: "cd \<in> set (channelData buf)" and s: "s \<in> set cd"
  note ok = decodeAudioData_ok [OF assms(1)]
  from cd obtain ch where ch: "ch < numChannels" "cd = channelData buf ! ch"
    using ok by (auto simp: in_set_conv_nth)
  from s obtain j where j: "j < length data div 2 div numChannels" "s = cd ! j"
    using ok ch by (auto simp: in_set_conv_nth)
  define r where "r = real_of_int (sint (le16 data ! (j * numChannels + ch))) / 32768"
  have "s = Sample r"
    using ok ch j by (simp add: r_def)
  moreover have "- 1 \<le> r \<and> r \<le> 32767 / 32768"
    unfolding r_def by (rule sample_range)
  ultimately show "\<exists>r. s = Sample r \<and> - 1 \<le> r \<and> r \<le> 32767 / 32768 \<and> r < 1"
    by auto
qed


theorem decodeAudioData_samples_in_range_witness:
  "decodeAudioData [0, 128, 255, 127] 24000 1 =
     Inr \<lparr>numberOfChannels = 1, buf_length = 2, sampleRate = 24000,
          channelData = [[Sample (- 1), Sample (32767 / 32768)]]\<rparr>
   \<and> (1::nat) \<le> 1
   \<and> list_all (list_all (\<lambda>s. \<exists>r. s = Sample r \<and> - 1 \<le> r \<and> r \<le> 32767 / 32768 \<and> r < 1))
         [[Sample (- 1), Sample (32767 / 32768)]]"
proof -
  have h: "decodeAudioData [0, 128, 255, 127] 24000 1 =
     Inr \<lparr>numberOfChannels = 1, buf_length = 2, sampleRate = 24000,
          channelData = [[Sample (- 1), Sample (32767 / 32768)]]\<rparr>"
    by (simp add: decodeAudioData_def Int16Array_def createBuffer_def fill_channel_def
        read_sample_def upt_two replicate_two)
  show ?thesis
    using h decodeAudioData_samples_in_range [OF h] by simp
qed

subsection \<open>Encoding and decoding again\<close>

text \<open>
  Claim C8, as the code has it.  For a non-empty buffer of samples between \<open>-1\<close> and \<open>1\<close>,
  and a platform whose \<^verbatim>\<open>atob\<close> returns the binary string that \<^verbatim>\<open>btoa\<close> was given, the
  encoded text decodes to the bytes that were encoded, these decode to one channel with
  as many samples, and every sample is less than two steps of the 16-bit quantisation
  (\<open>2/32768\<close>) away from the original; a negative sample is less than one step away.
\<close>

theorem encode_decode_error:
  assumes range: "\<forall>x \<in> set xs. - 1 \<le> x \<and> x \<le> 1" and ne: "xs \<noteq> []"
    and codec: "atob (btoa (map unat (pcm16_bytes xs))) = Some (map unat (pcm16_bytes xs))"
  shows "\<exists>buf ys. decode atob (float32ToPCM16 btoa xs) = Inr (pcm16_bytes xs)
           \<and> decodeAudioData (pcm16_bytes xs) 24000 1 = Inr buf
           \<and> channelData buf = [ys] \<and> length ys = length xs
           \<and> (\<forall>i < length xs. \<exists>r. ys ! i = Sample r \<and> \<bar>r - xs ! i\<bar> < 2 / 32768
                  \<and> (xs ! i < 0 \<longrightarrow> \<bar>r - xs ! i\<bar> < 1 / 32768))"
proof -
  have dec: "decode atob (float32ToPCM16 btoa xs) = Inr (pcm16_bytes xs)"
    using codec by (simp add: decode_def float32ToPCM16_def bytes_of_codes del: map_map)
  have "\<not> isl (decodeAudioData (pcm16_bytes xs) 24000 1)"
    using ne by (simp add: decodeAudioData_fails length_pcm16_bytes)
  then obtain buf where buf: "decodeAudioData (pcm16_bytes xs) 24000 1 = Inr buf"
    by (cases "decodeAudioData (pcm16_bytes xs) 24000 1") auto
  note ok = decodeAudioData_ok [OF buf]
  define ys where "ys = channelData buf ! 0"
  have one: "channelData buf = [ys]"
    using ok by (cases "channelData buf") (simp_all add: ys_def)
  have len: "length ys = length xs"
    using ok by (simp add: ys_def length_pcm16_bytes)
  have "\<exists>r. ys ! i = Sample r \<and> \<bar>r - xs ! i\<bar> < 2 / 32768
          \<and> (xs ! i < 0 \<longrightarrow> \<bar>r - xs ! i\<bar> < 1 / 32768)" if i: "i < length xs" for i
  proof -
    define r where "r = real_of_int (sint (quantize (xs ! i))) / 32768"
    have "ys ! i = Sample r"
      using ok i by (simp add: ys_def r_def length_pcm16_bytes le16_pcm16_bytes)
    moreover have x: "- 1 \<le> xs ! i" "xs ! i \<le> 1" using range i by simp_all
    then have "\<bar>r - xs ! i\<bar> < 2 / 32768" unfolding r_def by (rule quantize_error)
    moreover have "\<bar>r - xs ! i\<bar> < 1 / 32768" if "xs ! i < 0"
      unfolding r_def using x(1) that by (rule quantize_error_neg)
    ultimately show ?thesis by blast
  qed
  with dec buf one len show ?thesis by blast
qed


theorem encode_decode_error_witness:
  "list_all (\<lambda>x. - 1 \<le> x \<and> x \<le> 1) [1 / 2, - (1 / 4) :: real] \<and> [1 / 2, - (1 / 4) :: real] \<noteq> []
   \<and> (\<lambda>s. Some (map of_char s)) (map char_of (map unat (pcm16_bytes [1 / 2, - (1 / 4)])))
         = Some (map unat (pcm16_bytes [1 / 2, - (1 / 4)]))
   \<and> (\<exists>buf ys.
          decode (\<lambda>s. Some (map of_char s)) (float32ToPCM16 (map char_of) [1 / 2, - (1 / 4)])
            = Inr (pcm16_bytes [1 / 2, - (1 / 4)])
        \<and> decodeAudioData (pcm16_bytes [1 / 2, - (1 / 4)]) 24000 1 = Inr buf
        \<and> channelData buf = [ys] \<and> length ys = length [1 / 2, - (1 / 4) :: real]
        \<and> (\<forall>i < length [1 / 2, - (1 / 4) :: real].
              \<exists>r. ys ! i = Sample r \<and> \<bar>r - [1 / 2, - (1 / 4)] ! i\<bar> < 2 / 32768
                \<and> ([1 / 2, - (1 / 4)] ! i < (0::real) \<longrightarrow> \<bar>r - [1 / 2, - (1 / 4)] ! i\<bar> < 1 / 32768)))"
proof -
  have bytes: "pcm16_bytes [1 / 2, - (1 / 4)] = [255, 63, 0, 224]"
    by (simp add: pcm16_bytes_def quantize_def trunc_def int16_bytes_def)
  have range: "\<forall>x \<in> set [1 / 2, - (1 / 4) :: real]. - 1 \<le> x \<and> x \<le> 1"
    by simp
  have ne: "[1 / 2, - (1 / 4) :: real] \<noteq> []"
    by simp
  have codec: "(\<lambda>s. Some (map of_char s)) (map char_of (map unat (pcm16_bytes [1 / 2, - (1 / 4)])))
         = Some (map unat (pcm16_bytes [1 / 2, - (1 / 4)]))"
    by (simp add: bytes)
  show ?thesis
    using ne codec
      encode_decode_error [of "[1 / 2, - (1 / 4)]" "\<lambda>s. Some (map of_char s)" "map char_of",
        OF range ne codec]
    by simp
qed

text \<open>
  Claim C8 as stated, with the bound of one step \<open>1/32768\<close>, fails: the sample
  \<open>65535/65536\<close> (a 32-bit float) is encoded as the integer 32766 and decoded as
  \<open>32766/32768\<close>, one and a half steps below it.
\<close>

theorem encode_decode_one_step_counterexample:
  "- 1 \<le> (65535 / 65536 :: real) \<and> (65535 / 65536 :: real) \<le> 1
   \<and> pcm16_bytes [65535 / 65536] = [254, 127]
   \<and> decodeAudioData (pcm16_bytes [65535 / 65536]) 24000 1 =
        Inr \<lparr>numberOfChannels = 1, buf_length = 1, sampleRate = 24000,
             channelData = [[Sample (32766 / 32768)]]\<rparr>
   \<and> \<not> \<bar>32766 / 32768 - 65535 / 65536\<bar> \<le> (1 / 32768 :: real)"
  by (simp add: pcm16_bytes_def quantize_def trunc_def int16_bytes_def decodeAudioData_def
      Int16Array_def createBuffer_def fill_channel_def read_sample_def)

section \<open>Properties of the playback scheduler\<close>

subsection \<open>What one call does\<close>

lemma duration_decoded:
  assumes "decodeAudioData data 24000 1 = Inr buf"
  shows "duration buf = real (length data div 2) / 24000" and "0 < duration buf"
proof -
  note ok = decodeAudioData_ok [OF assms]
  from assms have "\<not> isl (decodeAudioData data 24000 1)" by simp
  then have "length data div 2 \<noteq> 0" by (simp add: decodeAudioData_fails)
  then show "duration buf = real (length data div 2) / 24000" and "0 < duration buf"
    using ok by (simp_all add: duration_def)
qed

lemma queueAudio_failure:
  assumes "fst (queueAudio atob t b p) = Some e"
  shows "snd (queueAudio atob t b p) = initContext p"
  using assms by (auto simp: queueAudio_def Let_def split: sum.splits)

lemma queueAudio_success_iff:
  "fst (queueAudio atob t b p) = None \<longleftrightarrow>
     (\<exists>bytes buf. decode atob b = Inr bytes \<and> decodeAudioData bytes 24000 1 = Inr buf)"
  by (auto simp: queueAudio_def Let_def split: sum.splits)

lemma initContext_fields [simp]:
  "nextStartTime (initContext p) = nextStartTime p"
  "sources (initContext p) = sources p"
  "isPlaying (initContext p) = isPlaying p"
  "onPlayStateChange (initContext p) = onPlayStateChange p"
  "notified (initContext p) = notified p"
  "stopped (initContext p) = stopped p"
  "created (initContext p) = created p"
  by (simp_all add: initContext_def)

lemma notify_fields [simp]:
  "nextStartTime (notify b p) = nextStartTime p"
  "sources (notify b p) = sources p"
  "isPlaying (notify b p) = isPlaying p"
  "onPlayStateChange (notify b p) = onPlayStateChange p"
  "stopped (notify b p) = stopped p"
  "created (notify b p) = created p"
  "audioContext (notify b p) = audioContext p"
  "notified (notify b p) = (if onPlayStateChange p then notified p @ [b] else notified p)"
  by (simp_all add: notify_def)

lemma queueAudio_success:
  assumes "decode atob b = Inr bytes" and "decodeAudioData bytes 24000 1 = Inr buf"
  shows "fst (queueAudio atob t b p) = None"
    and "sources (snd (queueAudio atob t b p)) =
           sources p @ [\<lparr>node_id = created p, buffer = buf, startTime = max (nextStartTime p) t\<rparr>]"
    and "nextStartTime (snd (queueAudio atob t b p)) = max (nextStartTime p) t + duration buf"
    and "isPlaying (snd (queueAudio atob t b p))"
    and "notified (snd (queueAudio atob t b p)) =
           (if \<not> isPlaying p \<and> onPlayStateChange p then notified p @ [True] else notified p)"
    and "created (snd (queueAudio atob t b p)) = Suc (created p)"
    and "stopped (snd (queueAudio atob t b p)) = stopped p"
    and "onPlayStateChange (snd (queueAudio atob t b p)) = onPlayStateChange p"
  using assms by (simp_all add: queueAudio_def Let_def max_def)

lemma queueAudio_monotone: "nextStartTime p \<le> nextStartTime (snd (queueAudio atob t b p))"
proof (cases "fst (queueAudio atob t b p)")
  case None
  then obtain bytes buf where d: "decode atob b = Inr bytes" "decodeAudioData bytes 24000 1 = Inr buf"
    by (auto simp: queueAudio_success_iff)
  show ?thesis
    using queueAudio_success(3) [OF d, of t p] duration_decoded(2) [OF d(2)] by simp
next
  case (Some e)
  then show ?thesis by (simp add: queueAudio_failure)
qed

lemma stop_fields [simp]:
  "nextStartTime (stop p) = 0"
  "sources (stop p) = []"
  "isPlaying (stop p) = False"
  "onPlayStateChange (stop p) = onPlayStateChange p"
  "audioContext (stop p) = audioContext p"
  "created (stop p) = created p"
  "stopped (stop p) = stopped p @ map node_id (sources p)"
  "notified (stop p) = (if onPlayStateChange p then notified p @ [False] else notified p)"
  by (simp_all add: stop_def)

lemma onended_fields [simp]:
  "nextStartTime (onended i p) = nextStartTime p"
  "sources (onended i p) = filter (\<lambda>s. node_id s \<noteq> i) (sources p)"
  "onPlayStateChange (onended i p) = onPlayStateChange p"
  "created (onended i p) = created p"
  "stopped (onended i p) = stopped p"
  by (simp_all add: onended_def Let_def)



lemma decode_examples:
  "decode atob_examples ''AAA='' = Inr [0, 0]"
  "decode atob_examples ''AEA='' = Inr [0, 64]"
  "decode atob_examples ''AA=='' = Inr [0]"
  "decode atob_examples ''AQACAAMA'' = Inr [1, 0, 2, 0, 3, 0]"
  by (simp_all add: decode_def atob_examples_def base64_examples_def)

lemma decodeAudioData_examples:
  "decodeAudioData [0, 0] 24000 1 =
     Inr \<lparr>numberOfChannels = 1, buf_length = 1, sampleRate = 24000, channelData = [[Sample 0]]\<rparr>"
  "decodeAudioData [0, 64] 24000 1 =
     Inr \<lparr>numberOfChannels = 1, buf_length = 1, sampleRate = 24000, channelData = [[Sample (1 / 2)]]\<rparr>"
  "decodeAudioData [0] 24000 1 = Inl RangeError"
  "decodeAudioData [] 24000 1 = Inl NotSupportedError"
  "decodeAudioData [1, 0, 2, 0, 3, 0] 24000 2 =
     Inr \<lparr>numberOfChannels = 2, buf_length = 1, sampleRate = 24000,
          channelData = [[Sample (1 / 32768)], [Sample (2 / 32768)]]\<rparr>"
  by (simp_all add: decodeAudioData_def Int16Array_def createBuffer_def fill_channel_def
      read_sample_def upt_two replicate_two)

lemma player_run_simps [simp]:
  "player_run atob [] p = p"
  "player_run atob (op # ops) p = player_run atob ops (player_step atob op p)"
  by (simp_all add: player_run_def)

lemma player_run_monotone:
  "list_all (\<lambda>op. op \<noteq> Stop) ops \<Longrightarrow> nextStartTime p \<le> nextStartTime (player_run atob ops p)"
proof (induction ops arbitrary: p)
  case Nil
  then show ?case by simp
next
  case (Cons op ops)
  then have "nextStartTime (player_step atob op p) \<le> nextStartTime (player_run atob (op # ops) p)"
    by simp
  moreover have "nextStartTime p \<le> nextStartTime (player_step atob op p)"
    using Cons.prems by (cases op) (simp_all add: queueAudio_monotone)
  ultimately show ?case by linarith
qed

lemma queue_first:
  "snd (queueAudio atob_examples 1 ''AAA='' (StreamAudioPlayer True)) =
     \<lparr>audioContext = Some 24000, nextStartTime = 24001 / 24000,
      sources = [\<lparr>node_id = 0,
                  buffer = \<lparr>numberOfChannels = 1, buf_length = 1, sampleRate = 24000,
                            channelData = [[Sample 0]]\<rparr>,
                  startTime = 1\<rparr>],
      isPlaying = True, onPlayStateChange = True, notified = [True], stopped = [], created = 1\<rparr>"
  by (simp add: queueAudio_def decode_examples decodeAudioData_examples StreamAudioPlayer_def
      initContext_def notify_def duration_def Let_def del: One_nat_def)



subsection \<open>Repeated \<open>stop\<close>\<close>

text \<open>
  Claim C2, as the code has it.  After \<open>stop\<close> the active set is empty, the cursor is at
  the idle baseline 0 and \<open>isPlaying\<close> is false; a second \<open>stop\<close> right after the first
  leaves every field of the scheduler as it is and stops no source, but it calls the
  observer with \<open>false\<close> once more when there is an observer.
\<close>

theorem stop_idempotent_state:
  "sources (stop p) = [] \<and> nextStartTime (stop p) = 0 \<and> \<not> isPlaying (stop p)
   \<and> stop (stop p) =
        (if onPlayStateChange p then (stop p)\<lparr>notified := notified (stop p) @ [False]\<rparr> else stop p)"
  by (simp add: stop_def notify_def Let_def)

text \<open>
  Claim C2 as stated fails in its last part: with an observer, the second \<open>stop\<close> is a
  further notification, so it is not a no-op.
\<close>

theorem stop_repeated_notifies_counterexample:
  "notified (player_run atob_examples [QueueAudio 1 ''AAA='', Stop] (StreamAudioPlayer True)) = [True, False]
   \<and> notified (player_run atob_examples [QueueAudio 1 ''AAA='', Stop, Stop] (StreamAudioPlayer True))
        = [True, False, False]
   \<and> player_run atob_examples [QueueAudio 1 ''AAA='', Stop, Stop] (StreamAudioPlayer True)
        \<noteq> player_run atob_examples [QueueAudio 1 ''AAA='', Stop] (StreamAudioPlayer True)"
  by (simp add: queue_first stop_def notify_def Let_def)

subsection \<open>The time cursor\<close>

text \<open>
  Claim C4, as the code has it.  \<open>nextStartTime\<close> never decreases in a call of
  \<open>queueAudio\<close> (whether the chunk decodes or not) nor when a source ends, so it is
  non-decreasing over every sequence of operations without \<open>stop\<close>; \<open>stop\<close> sets it back
  to 0.  When a buffer is scheduled, its start time is neither before the clock reading
  nor before the cursor.
\<close>

theorem nextStartTime_monotone:
  "nextStartTime p \<le> nextStartTime (snd (queueAudio atob t b p))
   \<and> nextStartTime (onended i p) = nextStartTime p
   \<and> nextStartTime (stop p) = 0
   \<and> (list_all (\<lambda>op. op \<noteq> Stop) ops \<longrightarrow>
        nextStartTime p \<le> nextStartTime (player_run atob ops p))
   \<and> (fst (queueAudio atob t b p) = None \<longrightarrow>
        (\<exists>src. sources (snd (queueAudio atob t b p)) = sources p @ [src]
           \<and> t \<le> startTime src \<and> nextStartTime p \<le> startTime src))"
proof -
  have "\<exists>src. sources (snd (queueAudio atob t b p)) = sources p @ [src]
           \<and> t \<le> startTime src \<and> nextStartTime p \<le> startTime src"
    if "fst (queueAudio atob t b p) = None"
  proof -
    from that obtain bytes buf where
      d: "decode atob b = Inr bytes" "decodeAudioData bytes 24000 1 = Inr buf"
      by (auto simp: queueAudio_success_iff)
    show ?thesis using queueAudio_success(2) [OF d, of t p] by simp
  qed
  then show ?thesis
    using queueAudio_monotone [of p atob t b] player_run_monotone [of ops p atob] by simp
qed

theorem nextStartTime_monotone_witness:
  "list_all (\<lambda>op. op \<noteq> Stop) [QueueAudio 1 ''AAA='', Ended 0, QueueAudio 3 ''AA=='', QueueAudio 2 ''AEA='']
   \<and> fst (queueAudio atob_examples 1 ''AAA='' (StreamAudioPlayer True)) = None
   \<and> nextStartTime (StreamAudioPlayer True)
        \<le> nextStartTime (player_run atob_examples
             [QueueAudio 1 ''AAA='', Ended 0, QueueAudio 3 ''AA=='', QueueAudio 2 ''AEA='']
             (StreamAudioPlayer True))
   \<and> (\<exists>src. sources (snd (queueAudio atob_examples 1 ''AAA='' (StreamAudioPlayer True))) =
              sources (StreamAudioPlayer True) @ [src]
         \<and> 1 \<le> startTime src \<and> nextStartTime (StreamAudioPlayer True) \<le> startTime src)"
proof -
  have a: "list_all (\<lambda>op. op \<noteq> Stop)
             [QueueAudio 1 ''AAA='', Ended 0, QueueAudio 3 ''AA=='', QueueAudio 2 ''AEA='']"
    by simp
  have b: "fst (queueAudio atob_examples 1 ''AAA='' (StreamAudioPlayer True)) = None"
    by (simp add: queueAudio_success(1) [OF decode_examples(1) decodeAudioData_examples(1)])
  show ?thesis
    using a b nextStartTime_monotone [of "StreamAudioPlayer True" atob_examples 1 "''AAA=''" 0
        "[QueueAudio 1 ''AAA='', Ended 0, QueueAudio 3 ''AA=='', QueueAudio 2 ''AEA='']"]
    by simp
qed

text \<open>
  Claim C4 as stated, for sequences with \<open>stop\<close>, fails: after one chunk queued at clock
  time 1 the cursor is \<open>1 + 1/24000\<close>, and \<open>stop\<close> takes it down to 0.
\<close>

theorem nextStartTime_reset_counterexample:
  "nextStartTime (player_run atob_examples [QueueAudio 1 ''AAA=''] (StreamAudioPlayer True)) = 24001 / 24000
   \<and> nextStartTime (player_run atob_examples [QueueAudio 1 ''AAA='', Stop] (StreamAudioPlayer True)) = 0
   \<and> \<not> (24001 / 24000 \<le> (0::real))"
  by (simp add: queue_first)

subsection \<open>Gapless scheduling\<close>



subsection \<open>A chunk that does not decode\<close>

text \<open>
  Claim C7, as the code has it.  With the channel count 1 and the rate 24000 that
  \<open>queueAudio\<close> passes, decoding fails if and only if the byte length is odd
  (\<^verbatim>\<open>RangeError\<close>, from the 16-bit view) or zero (\<^verbatim>\<open>NotSupportedError\<close>, from
  \<^verbatim>\<open>createBuffer\<close>); for a channel count \<open>c\<close> from 1 to 32 it fails if and only if the
  byte length is odd or there are fewer than \<open>c\<close> 16-bit values.  The failure is local: a call of
  \<open>queueAudio\<close> that fails changes nothing of the scheduler but the creation of the audio
  context, a later chunk of even, non-zero byte length is decoded and scheduled as if the
  failed call had not happened, the handler of the application changes nothing else, and
  handling a message neither disconnects the service nor closes the session nor calls
  \<open>onClose\<close>.
\<close>

theorem decode_failure_local:
  "(isl (decodeAudioData data 24000 1) \<longleftrightarrow> odd (length data) \<or> data = [])
   \<and> (decodeAudioData data 24000 1 = Inl RangeError \<longleftrightarrow> odd (length data))
   \<and> (1 \<le> c \<and> c \<le> 32 \<longrightarrow>
        (isl (decodeAudioData data 24000 c) \<longleftrightarrow> odd (length data) \<or> length data div 2 < c))
   \<and> (fst (queueAudio atob t b p) = Some e \<longrightarrow>
        snd (queueAudio atob t b p) = initContext p
      \<and> nextStartTime (snd (queueAudio atob t b p)) = nextStartTime p
      \<and> sources (snd (queueAudio atob t b p)) = sources p
      \<and> isPlaying (snd (queueAudio atob t b p)) = isPlaying p
      \<and> notified (snd (queueAudio atob t b p)) = notified p
      \<and> (decode atob b' = Inr bytes \<and> even (length bytes) \<and> bytes \<noteq> [] \<longrightarrow>
           (\<exists>buf. decodeAudioData bytes 24000 1 = Inr buf
              \<and> fst (queueAudio atob t' b' (snd (queueAudio atob t b p))) = None
              \<and> sources (snd (queueAudio atob t' b' (snd (queueAudio atob t b p)))) =
                  sources p @ [\<lparr>node_id = created p, buffer = buf,
                                startTime = max (nextStartTime p) t'\<rparr>]))
      \<and> onAudioData atob t b (a\<lparr>audioPlayerRef := p\<rparr>) = a\<lparr>audioPlayerRef := initContext p\<rparr>)
   \<and> isConnected (handleMessage m s) = isConnected s
   \<and> activeSession (handleMessage m s) = activeSession s
   \<and> onCloseCalls (handleMessage m s) = onCloseCalls s"
proof -
  have one: "isl (decodeAudioData data 24000 1) \<longleftrightarrow> odd (length data) \<or> data = []"
    by (auto simp: decodeAudioData_fails)
  have range: "decodeAudioData data 24000 1 = Inl RangeError \<longleftrightarrow> odd (length data)"
    by (auto simp: decodeAudioData_def Int16Array_def createBuffer_def Let_def split: sum.splits)
  have gen: "isl (decodeAudioData data 24000 c) \<longleftrightarrow> odd (length data) \<or> length data div 2 < c"
    if "1 \<le> c \<and> c \<le> 32"
    using that by (auto simp: decodeAudioData_fails div_eq_0_iff)
  have loc: "snd (queueAudio atob t b p) = initContext p
      \<and> nextStartTime (snd (queueAudio atob t b p)) = nextStartTime p
      \<and> sources (snd (queueAudio atob t b p)) = sources p
      \<and> isPlaying (snd (queueAudio atob t b p)) = isPlaying p
      \<and> notified (snd (queueAudio atob t b p)) = notified p
      \<and> (decode atob b' = Inr bytes \<and> even (length bytes) \<and> bytes \<noteq> [] \<longrightarrow>
           (\<exists>buf. decodeAudioData bytes 24000 1 = Inr buf
              \<and> fst (queueAudio atob t' b' (snd (queueAudio atob t b p))) = None
              \<and> sources (snd (queueAudio atob t' b' (snd (queueAudio atob t b p)))) =
                  sources p @ [\<lparr>node_id = created p, buffer = buf,
                                startTime = max (nextStartTime p) t'\<rparr>]))
      \<and> onAudioData atob t b (a\<lparr>audioPlayerRef := p\<rparr>) = a\<lparr>audioPlayerRef := initContext p\<rparr>"
    if f: "fst (queueAudio atob t b p) = Some e"
  proof -
    note q = queueAudio_failure [OF f]
    have next_ok: "\<exists>buf. decodeAudioData bytes 24000 1 = Inr buf
              \<and> fst (queueAudio atob t' b' (snd (queueAudio atob t b p))) = None
              \<and> sources (snd (queueAudio atob t' b' (snd (queueAudio atob t b p)))) =
                  sources p @ [\<lparr>node_id = created p, buffer = buf,
                                startTime = max (nextStartTime p) t'\<rparr>]"
      if v: "decode atob b' = Inr bytes \<and> even (length bytes) \<and> bytes \<noteq> []"
    proof -
      from v have "length bytes div 2 \<noteq> 0" by (cases bytes) auto
      with v have "\<not> isl (decodeAudioData bytes 24000 1)" by (simp add: decodeAudioData_fails)
      then obtain buf where buf: "decodeAudioData bytes 24000 1 = Inr buf"
        by (cases "decodeAudioData bytes 24000 1") auto
      from v have d: "decode atob b' = Inr bytes" by simp
      show ?thesis
        using buf queueAudio_success(1,2) [OF d buf, of t' "initContext p"] by (simp add: q)
    qed
    have "onAudioData atob t b (a\<lparr>audioPlayerRef := p\<rparr>) = a\<lparr>audioPlayerRef := initContext p\<rparr>"
      by (simp add: onAudioData_def with_player_def q Let_def)
    with next_ok show ?thesis by (simp add: q)
  qed
  have msg: "isConnected (handleMessage m s) = isConnected s
   \<and> activeSession (handleMessage m s) = activeSession s
   \<and> onCloseCalls (handleMessage m s) = onCloseCalls s"
    by (simp add: handleMessage_def onCloseCalls_def Let_def split: option.splits)
  from one range gen loc msg show ?thesis by blast
qed

theorem decode_failure_local_witness:
  "(1::nat) \<le> 2 \<and> (2::nat) \<le> 32
   \<and> isl (decodeAudioData [0, 0] 24000 2)
   \<and> fst (queueAudio atob_examples 1 ''AA=='' (StreamAudioPlayer True)) = Some RangeError
   \<and> decode atob_examples ''AAA='' = Inr [0, 0] \<and> even (length [0, 0 :: byte]) \<and> [0, 0 :: byte] \<noteq> []
   \<and> snd (queueAudio atob_examples 1 ''AA=='' (StreamAudioPlayer True)) = initContext (StreamAudioPlayer True)
   \<and> (\<exists>buf. decodeAudioData [0, 0] 24000 1 = Inr buf
          \<and> fst (queueAudio atob_examples 2 ''AAA=''
                 (snd (queueAudio atob_examples 1 ''AA=='' (StreamAudioPlayer True)))) = None
          \<and> sources (snd (queueAudio atob_examples 2 ''AAA=''
                 (snd (queueAudio atob_examples 1 ''AA=='' (StreamAudioPlayer True))))) =
               sources (StreamAudioPlayer True) @
                 [\<lparr>node_id = created (StreamAudioPlayer True), buffer = buf,
                   startTime = max (nextStartTime (StreamAudioPlayer True)) 2\<rparr>])"
proof -
  have c: "(1::nat) \<le> 2 \<and> (2::nat) \<le> 32" by simp
  have f: "fst (queueAudio atob_examples 1 ''AA=='' (StreamAudioPlayer True)) = Some RangeError"
    by (simp add: queueAudio_def decode_examples decodeAudioData_examples Let_def del: One_nat_def)
  have v: "decode atob_examples ''AAA='' = Inr [0, 0] \<and> even (length [0, 0 :: byte]) \<and> [0, 0 :: byte] \<noteq> []"
    by (simp add: decode_examples)
  note T = decode_failure_local [where data = "[0, 0]" and c = 2 and atob = atob_examples
      and t = 1 and b = "''AA==''" and p = "StreamAudioPlayer True" and e = RangeError
      and b' = "''AAA=''" and bytes = "[0, 0]" and t' = 2]
  from T c have g: "isl (decodeAudioData [0, 0] 24000 2)" by simp
  from T f v c g show ?thesis by blast
qed

text \<open>
  Claim C7 as stated fails in both directions: the empty payload has a byte length that
  is a multiple of \<open>2 \<cdot> 1\<close> and is rejected, and a payload of 6 bytes, not a multiple of
  \<open>2 \<cdot> 2\<close>, is accepted with two channels (the last 16-bit value is dropped).
\<close>

theorem decode_failure_iff_counterexample:
  "decodeAudioData [] 24000 1 = Inl NotSupportedError
   \<and> length ([] :: byte list) = 0 \<and> 2 * 1 dvd (0::nat)
   \<and> decodeAudioData [1, 0, 2, 0, 3, 0] 24000 2 =
        Inr \<lparr>numberOfChannels = 2, buf_length = 1, sampleRate = 24000,
             channelData = [[Sample (1 / 32768)], [Sample (2 / 32768)]]\<rparr>
   \<and> length [1, 0, 2, 0, 3, 0 :: byte] = 6 \<and> \<not> 2 * 2 dvd (6::nat)"
proof -
  have "length [1, 0, 2, 0, 3, 0 :: byte] = 6 \<and> \<not> 2 * 2 dvd (6::nat)"
    by simp
  with decodeAudioData_examples(4,5) show ?thesis
    by simp
qed

section \<open>Properties of the transcript aggregation\<close>

lemma trim_empty_iff: "trim t = [] \<longleftrightarrow> list_all isWhiteSpace t"
proof
  assume "trim t = []"
  then have a: "\<forall>x \<in> set (dropWhile isWhiteSpace t). isWhiteSpace x"
    by (simp add: trim_def)
  have "dropWhile isWhiteSpace t = []"
  proof (rule ccontr)
    assume ne: "dropWhile isWhiteSpace t \<noteq> []"
    then have "\<not> isWhiteSpace (hd (dropWhile isWhiteSpace t))" by (rule hd_dropWhile)
    moreover have "hd (dropWhile isWhiteSpace t) \<in> set (dropWhile isWhiteSpace t)"
      using ne by simp
    ultimately show False using a by blast
  qed
  then show "list_all isWhiteSpace t" by (simp add: list_all_iff)
next
  assume "list_all isWhiteSpace t"
  then have "dropWhile isWhiteSpace t = []" by (simp add: list_all_iff)
  then show "trim t = []" by (simp only: trim_def rev.simps dropWhile.simps)
qed

lemma toString_examples: "toString 3 = ''3''" "toString 42 = ''42''"
  by (simp_all add: toString.simps)

lemma trim_examples:
  "trim (str ''ab'') = str ''ab''" "trim (str '' '') = []" "trim (str ''hello'') = str ''hello''"
  by (simp_all add: trim_def str_def isWhiteSpace_def)

lemma cleanup_fields [simp]:
  "emitted (cleanup s) = emitted s"
  "activeSession (cleanup s) = activeSession s"
  "isConnected (cleanup s) = isConnected s"
  "connect_pc (cleanup s) = connect_pc s"
  "acquired (cleanup s) = acquired s"
  "sessionCloseCalls (cleanup s) = sessionCloseCalls s"
  "stream (cleanup s) = None"
  "processor (cleanup s) = None"
  "inputAudioContext (cleanup s) = None"
  "released (cleanup s) = released s @ held s"
  by (simp_all add: cleanup_def held_def Let_def split: option.splits)

lemma disconnect_fields [simp]:
  "emitted (disconnect s) = emitted s @ [OnClose]"
  "activeSession (disconnect s) = None"
  "isConnected (disconnect s) = False"
  "connect_pc (disconnect s) = connect_pc s"
  "acquired (disconnect s) = acquired s"
  "stream (disconnect s) = None"
  "processor (disconnect s) = None"
  "inputAudioContext (disconnect s) = None"
  "released (disconnect s) = released s @ held s"
  by (simp_all add: disconnect_def held_def Let_def split: option.splits)

lemma with_player_fields [simp]:
  "messages (with_player f a) = messages a"
  "currentTranscript (with_player f a) = currentTranscript a"
  "liveSessionRef (with_player f a) = liveSessionRef a"
  "audioPlayerRef (with_player f a) = f (audioPlayerRef a)"
  by (simp_all add: with_player_def Let_def)

lemma onClose_fields [simp]:
  "messages (onClose a) = messages a"
  "currentTranscript (onClose a) = currentTranscript a"
  "liveSessionRef (onClose a) = liveSessionRef a"
  by (simp_all add: onClose_def)





text \<open>
  Claim C6.  A delta in the state with no open utterance opens one.  A delta of the
  speaker of the open utterance appends its text and leaves the history as it is.  A
  delta of the other speaker appends the open utterance (speaker, accumulated text) to
  the history if and only if the accumulated text is not empty after \<open>trim\<close>, that is,
  does not consist of white space only, and opens a new utterance for the new speaker
  with the text of the delta.  The deltas (user, "a"), (user, "b"), (coach, "c") commit
  the one utterance (user, "ab") and leave (coach, "c") open; the deltas (user, " "),
  (coach, "x") commit nothing.
\<close>

theorem onTranscriptUpdate_turns:
  "(currentTranscript a = None \<longrightarrow>
      onTranscriptUpdate now sp t isFinal a = a\<lparr>currentTranscript := Some (sp, t)\<rparr>)
   \<and> (currentTranscript a = Some (sp, acc) \<longrightarrow>
      onTranscriptUpdate now sp t isFinal a = a\<lparr>currentTranscript := Some (sp, acc @ t)\<rparr>)
   \<and> (currentTranscript a = Some (prev, acc) \<and> prev \<noteq> sp \<longrightarrow>
      onTranscriptUpdate now sp t isFinal a =
        a\<lparr>messages :=
             (if trim acc \<noteq> []
              then messages a @ [\<lparr>msg_id = toString now, speaker = prev, msg_text = acc,
                                   timestamp = now\<rparr>]
              else messages a),
          currentTranscript := Some (sp, t)\<rparr>
      \<and> (messages (onTranscriptUpdate now sp t isFinal a) \<noteq> messages a \<longleftrightarrow> trim acc \<noteq> []))
   \<and> (trim acc = [] \<longleftrightarrow> list_all isWhiteSpace acc)
   \<and> messages (deltas [(1, User, str ''a''), (2, User, str ''b''), (3, Coach, str ''c'')] App)
        = [\<lparr>msg_id = ''3'', speaker = User, msg_text = str ''ab'', timestamp = 3\<rparr>]
   \<and> currentTranscript (deltas [(1, User, str ''a''), (2, User, str ''b''), (3, Coach, str ''c'')] App)
        = Some (Coach, str ''c'')
   \<and> messages (deltas [(1, User, str '' ''), (2, Coach, str ''x'')] App) = []
   \<and> currentTranscript (deltas [(1, User, str '' ''), (2, Coach, str ''x'')] App)
        = Some (Coach, str ''x'')"
proof -
  have ex1: "deltas [(1, User, str ''a''), (2, User, str ''b''), (3, Coach, str ''c'')] App =
      App\<lparr>messages := [\<lparr>msg_id = ''3'', speaker = User, msg_text = str ''ab'', timestamp = 3\<rparr>],
          currentTranscript := Some (Coach, str ''c'')\<rparr>"
    using trim_examples(1)
    by (simp add: App_def onTranscriptUpdate_def addMessageToHistory_def toString_examples str_def)
  have ex2: "deltas [(1, User, str '' ''), (2, Coach, str ''x'')] App =
      App\<lparr>currentTranscript := Some (Coach, str ''x'')\<rparr>"
    by (simp add: App_def onTranscriptUpdate_def addMessageToHistory_def trim_examples)
  have gen: "(currentTranscript a = None \<longrightarrow>
      onTranscriptUpdate now sp t isFinal a = a\<lparr>currentTranscript := Some (sp, t)\<rparr>)
   \<and> (currentTranscript a = Some (sp, acc) \<longrightarrow>
      onTranscriptUpdate now sp t isFinal a = a\<lparr>currentTranscript := Some (sp, acc @ t)\<rparr>)
   \<and> (currentTranscript a = Some (prev, acc) \<and> prev \<noteq> sp \<longrightarrow>
      onTranscriptUpdate now sp t isFinal a =
        a\<lparr>messages :=
             (if trim acc \<noteq> []
              then messages a @ [\<lparr>msg_id = toString now, speaker = prev, msg_text = acc,
                                   timestamp = now\<rparr>]
              else messages a),
          currentTranscript := Some (sp, t)\<rparr>
      \<and> (messages (onTranscriptUpdate now sp t isFinal a) \<noteq> messages a \<longleftrightarrow> trim acc \<noteq> []))"
    by (simp add: onTranscriptUpdate_def addMessageToHistory_def)
  have e1: "messages (deltas [(1, User, str ''a''), (2, User, str ''b''), (3, Coach, str ''c'')] App)
        = [\<lparr>msg_id = ''3'', speaker = User, msg_text = str ''ab'', timestamp = 3\<rparr>]"
    and e2: "currentTranscript
          (deltas [(1, User, str ''a''), (2, User, str ''b''), (3, Coach, str ''c'')] App)
        = Some (Coach, str ''c'')"
    unfolding ex1 by simp_all
  have e3: "messages (deltas [(1, User, str '' ''), (2, Coach, str ''x'')] App) = []"
    and e4: "currentTranscript (deltas [(1, User, str '' ''), (2, Coach, str ''x'')] App)
        = Some (Coach, str ''x'')"
    unfolding ex2 by (simp_all add: App_def)
  from gen trim_empty_iff [of acc] e1 e2 e3 e4 show ?thesis
    by blast
qed

theorem onTranscriptUpdate_turns_witness:
  "currentTranscript App = None
   \<and> onTranscriptUpdate 1 User (str ''a'') False App = App\<lparr>currentTranscript := Some (User, str ''a'')\<rparr>
   \<and> currentTranscript (App\<lparr>currentTranscript := Some (User, str ''a'')\<rparr>) = Some (User, str ''a'')
   \<and> onTranscriptUpdate 2 User (str ''b'') False (App\<lparr>currentTranscript := Some (User, str ''a'')\<rparr>)
        = App\<lparr>currentTranscript := Some (User, str ''a'' @ str ''b'')\<rparr>
   \<and> currentTranscript (App\<lparr>currentTranscript := Some (User, str ''ab'')\<rparr>) = Some (User, str ''ab'')
   \<and> User \<noteq> Coach \<and> trim (str ''ab'') \<noteq> []
   \<and> messages (onTranscriptUpdate 3 Coach (str ''c'') False
         (App\<lparr>currentTranscript := Some (User, str ''ab'')\<rparr>))
        \<noteq> messages (App\<lparr>currentTranscript := Some (User, str ''ab'')\<rparr>)"
proof -
  have n: "currentTranscript App = None"
    by (simp add: App_def)
  have s: "currentTranscript (App\<lparr>currentTranscript := Some (User, str ''a'')\<rparr>) = Some (User, str ''a'')"
    by simp
  have d: "currentTranscript (App\<lparr>currentTranscript := Some (User, str ''ab'')\<rparr>) = Some (User, str ''ab'')
           \<and> User \<noteq> Coach"
    by simp
  have t: "trim (str ''ab'') \<noteq> []"
    by (simp add: trim_def str_def isWhiteSpace_def)
  note T1 = onTranscriptUpdate_turns [where a = App and sp = User and t = "str ''a''" and now = 1
      and isFinal = False]
  note T2 = onTranscriptUpdate_turns [where a = "App\<lparr>currentTranscript := Some (User, str ''a'')\<rparr>"
      and sp = User and acc = "str ''a''" and t = "str ''b''" and now = 2 and isFinal = False]
  note T3 = onTranscriptUpdate_turns [where a = "App\<lparr>currentTranscript := Some (User, str ''ab'')\<rparr>"
      and sp = Coach and prev = User and acc = "str ''ab''" and t = "str ''c''" and now = 3
      and isFinal = False]
  from T1 n have r1: "onTranscriptUpdate 1 User (str ''a'') False App
        = App\<lparr>currentTranscript := Some (User, str ''a'')\<rparr>"
    by blast
  from T2 s have r2: "onTranscriptUpdate 2 User (str ''b'') False
          (App\<lparr>currentTranscript := Some (User, str ''a'')\<rparr>)
        = App\<lparr>currentTranscript := Some (User, str ''a'' @ str ''b'')\<rparr>"
    by simp
  from T3 d t have r3: "messages (onTranscriptUpdate 3 Coach (str ''c'') False
         (App\<lparr>currentTranscript := Some (User, str ''ab'')\<rparr>))
        \<noteq> messages (App\<lparr>currentTranscript := Some (User, str ''ab'')\<rparr>)"
    by blast
  from n s d t r1 r2 r3 show ?thesis by blast
qed














section \<open>Properties of the session service\<close>

lemma held_disconnect [simp]: "held (disconnect s) = []"
  by (simp add: held_def)

lemma held_simps [simp]:
  "held (s\<lparr>connect_pc := pc\<rparr>) = held s"
  "held (s\<lparr>isConnected := b\<rparr>) = held s"
  "held (s\<lparr>emitted := es\<rparr>) = held s"
  "held (s\<lparr>acquired := a\<rparr>) = held s"
  "held (s\<lparr>activeSession := x\<rparr>) = held s"
  "held (s\<lparr>sessionCloseCalls := n\<rparr>) = held s"
  by (simp_all add: held_def)

lemma service_inv_init: "service_inv LiveSessionService"
  by (simp add: service_inv_def LiveSessionService_def held_def)

lemma service_inv_disconnect: "service_inv s \<Longrightarrow> service_inv (disconnect s)"
  by (simp add: service_inv_def)

lemma service_inv_pc_Returned: "service_inv s \<Longrightarrow> service_inv (s\<lparr>connect_pc := Returned\<rparr>)"
  by (simp add: service_inv_def)

lemma handleMessage_fields [simp]:
  "acquired (handleMessage m s) = acquired s"
  "released (handleMessage m s) = released s"
  "held (handleMessage m s) = held s"
  "connect_pc (handleMessage m s) = connect_pc s"
  "stream (handleMessage m s) = stream s"
  "processor (handleMessage m s) = processor s"
  "inputAudioContext (handleMessage m s) = inputAudioContext s"
  "isConnected (handleMessage m s) = isConnected s"
  "activeSession (handleMessage m s) = activeSession s"
  by (simp_all add: handleMessage_def held_def Let_def split: option.splits)

lemma held_acquired:
  assumes "service_inv s"
  shows "stream s = Some h \<Longrightarrow> h \<in> set (acquired s)"
    and "processor s = Some h \<Longrightarrow> h \<in> set (acquired s)"
    and "inputAudioContext s = Some h \<Longrightarrow> h \<in> set (acquired s)"
proof -
  from assms have "set_mset (mset (acquired s)) = set_mset (mset (released s) + mset (held s))"
    by (simp only: service_inv_def)
  then have sub: "set (held s) \<subseteq> set (acquired s)" by auto
  show "stream s = Some h \<Longrightarrow> h \<in> set (acquired s)"
    and "processor s = Some h \<Longrightarrow> h \<in> set (acquired s)"
    and "inputAudioContext s = Some h \<Longrightarrow> h \<in> set (acquired s)"
    using sub by (auto simp: held_def)
qed

lemma held_set_stream:
  "stream s = None \<Longrightarrow> held (s\<lparr>stream := Some h\<rparr>) = h # held s"
  by (simp add: held_def)

lemma held_set_processor:
  "processor s = None \<Longrightarrow> mset (held (s\<lparr>processor := Some h\<rparr>)) = add_mset h (mset (held s))"
  by (simp add: held_def)

lemma held_set_context:
  "inputAudioContext s = None \<Longrightarrow>
     mset (held (s\<lparr>inputAudioContext := Some h\<rparr>)) = add_mset h (mset (held s))"
  by (simp add: held_def)

lemma service_inv_createProcessor:
  assumes inv: "service_inv s" and pc: "connect_pc s \<noteq> Returned"
  shows "service_inv (createProcessor s)"
proof (cases "inputAudioContext s = None \<or> stream s = None")
  case True
  then show ?thesis
    using inv by (simp add: createProcessor_def service_inv_disconnect service_inv_pc_Returned)
next
  case False
  from inv pc have np: "ScriptProcessor \<notin> set (acquired s)" by (simp add: service_inv_def)
  have "processor s \<noteq> Some ScriptProcessor"
    using held_acquired(2) [OF inv] np by blast
  moreover from inv have "processor s = None \<or> processor s = Some ScriptProcessor"
    by (simp add: service_inv_def)
  ultimately have p: "processor s = None" by blast
  have eq: "createProcessor s =
      s\<lparr>processor := Some ScriptProcessor, acquired := acquired s @ [ScriptProcessor],
        connect_pc := Returned\<rparr>"
    unfolding createProcessor_def if_not_P [OF False] by simp
  from inv have m: "mset (acquired s) = mset (released s) + mset (held s)"
    and d: "distinct (acquired s)"
    and ty: "stream s = None \<or> stream s = Some MicStream"
      "inputAudioContext s = None \<or> inputAudioContext s = Some InputAudioContext"
    by (simp_all add: service_inv_def)
  have "service_inv (s\<lparr>processor := Some ScriptProcessor,
          acquired := acquired s @ [ScriptProcessor], connect_pc := Returned\<rparr>)"
    using m d ty np p by (simp add: service_inv_def held_set_processor)
  then show ?thesis by (simp only: eq)
qed

lemma service_inv_Connect:
  assumes inv: "service_inv s"
  shows "service_inv (step (Connect ok) s)"
proof (cases "connect_pc s = NotCalled")
  case True
  with inv have a: "acquired s = []" by (simp add: service_inv_def)
  have c: "inputAudioContext s = None"
    using held_acquired(3) [OF inv] a by (cases "inputAudioContext s") auto
  have i1: "service_inv (s\<lparr>isConnected := True, connect_pc := Returned\<rparr>)"
    using inv by (simp add: service_inv_def)
  from inv have m: "mset (acquired s) = mset (released s) + mset (held s)"
    and ty: "stream s = None \<or> stream s = Some MicStream"
      "processor s = None \<or> processor s = Some ScriptProcessor"
    by (simp_all add: service_inv_def)
  have "service_inv (s\<lparr>isConnected := True, inputAudioContext := Some InputAudioContext,
             acquired := acquired s @ [InputAudioContext], connect_pc := AwaitGetUserMedia\<rparr>)"
    using m ty a c by (simp add: service_inv_def held_set_context)
  with True i1 show ?thesis by (simp add: service_inv_disconnect)
next
  case False
  with inv show ?thesis by simp
qed

lemma service_inv_GetUserMediaResolved:
  assumes inv: "service_inv s"
  shows "service_inv (step GetUserMediaResolved s)"
proof (cases "connect_pc s = AwaitGetUserMedia")
  case True
  with inv have nm: "MicStream \<notin> set (acquired s)" by (simp add: service_inv_def)
  have "stream s \<noteq> Some MicStream"
    using held_acquired(1) [OF inv] nm by blast
  moreover from inv have "stream s = None \<or> stream s = Some MicStream"
    by (simp add: service_inv_def)
  ultimately have st: "stream s = None" by blast
  from inv True have m: "mset (acquired s) = mset (released s) + mset (held s)"
    and d: "distinct (acquired s)"
    and np: "ScriptProcessor \<notin> set (acquired s)"
    and ty: "processor s = None \<or> processor s = Some ScriptProcessor"
      "inputAudioContext s = None \<or> inputAudioContext s = Some InputAudioContext"
    by (simp_all add: service_inv_def)
  have "service_inv (s\<lparr>stream := Some MicStream, acquired := acquired s @ [MicStream],
             connect_pc := AwaitSession\<rparr>)"
    using m d ty nm np st by (simp add: service_inv_def held_set_stream)
  with True show ?thesis by simp
next
  case False
  with inv show ?thesis by simp
qed

lemma service_inv_SessionResolved:
  assumes inv: "service_inv s"
  shows "service_inv (step (SessionResolved suspended) s)"
proof (cases "connect_pc s = AwaitSession")
  case True
  let ?s1 = "s\<lparr>activeSession := Some LiveSession\<rparr>"
  have i1: "service_inv ?s1" using inv by (simp add: service_inv_def)
  have pc1: "connect_pc ?s1 \<noteq> Returned" using True by simp
  have i2: "service_inv (?s1\<lparr>connect_pc := AwaitResume\<rparr>)"
    using i1 True by (simp add: service_inv_def)
  have "service_inv (startAudioPipeline suspended ?s1)"
    unfolding startAudioPipeline_def
    using service_inv_pc_Returned [OF i1] i2 service_inv_createProcessor [OF i1 pc1]
    by (simp del: createProcessor_def)
  moreover have "service_inv (?s1\<lparr>sessionCloseCalls := Suc (sessionCloseCalls ?s1),
                                    connect_pc := Returned\<rparr>)"
    using i1 by (simp add: service_inv_def)
  ultimately show ?thesis using True by (simp add: Let_def)
next
  case False
  with inv show ?thesis by simp
qed

lemma service_inv_handleMessage: "service_inv s \<Longrightarrow> service_inv (handleMessage m s)"
  by (simp add: service_inv_def)

lemma service_inv_step: "service_inv s \<Longrightarrow> service_inv (step e s)"
proof (cases e)
  case (Connect ok)
  assume "service_inv s"
  then show ?thesis unfolding Connect by (rule service_inv_Connect)
next
  case GetUserMediaResolved
  assume "service_inv s"
  then show ?thesis unfolding GetUserMediaResolved by (rule service_inv_GetUserMediaResolved)
next
  case (SessionResolved suspended)
  assume "service_inv s"
  then show ?thesis unfolding SessionResolved by (rule service_inv_SessionResolved)
next
  case ResumeResolved
  assume inv: "service_inv s"
  then show ?thesis
    using service_inv_createProcessor [OF inv] by (simp add: ResumeResolved)
next
  case (ServerMessage m)
  assume "service_inv s"
  then show ?thesis by (simp add: ServerMessage service_inv_handleMessage)
qed (simp_all add: service_inv_disconnect service_inv_pc_Returned)

lemma service_inv_run: "service_inv s \<Longrightarrow> service_inv (run es s)"
  by (induction es arbitrary: s) (simp_all add: service_inv_step)

lemma held_Nil_fields:
  "held s = [] \<Longrightarrow> stream s = None \<and> processor s = None \<and> inputAudioContext s = None"
  by (cases "stream s"; cases "processor s"; cases "inputAudioContext s") (simp_all add: held_def)

lemma teardown_held: "teardown e s \<Longrightarrow> held (step e s) = []"
  by (cases e) (auto simp: createProcessor_def)

lemma service_inv_counts:
  assumes "service_inv s"
  shows "count_list (acquired s) h = count_list (released s) h + count_list (held s) h"
    and "count_list (acquired s) h \<le> 1"
proof -
  from assms have "count (mset (acquired s)) h = count (mset (released s) + mset (held s)) h"
    by (simp only: service_inv_def)
  then show "count_list (acquired s) h = count_list (released s) h + count_list (held s) h"
    by (simp add: count_mset)
  from assms have "distinct (acquired s)" by (simp add: service_inv_def)
  then have "count (mset (acquired s)) h = (if h \<in> set (acquired s) then 1 else 0)"
    by (simp only: distinct_count_atmost_1)
  then show "count_list (acquired s) h \<le> 1" by (simp add: count_mset)
qed

lemma service_inv_released:
  assumes "service_inv s" and "held s = []"
  shows "count_list (released s) h = (if h \<in> set (acquired s) then 1 else 0)"
proof -
  from assms(1) have "distinct (acquired s)" by (simp add: service_inv_def)
  then have "count (mset (acquired s)) h = (if h \<in> set (acquired s) then 1 else 0)"
    by (simp only: distinct_count_atmost_1)
  then show ?thesis
    using service_inv_counts(1) [OF assms(1), of h] assms(2) by (simp add: count_mset)
qed

text \<open>
  What a teardown does.  In every state a service reaches, each handle was acquired at
  most once and is either released exactly once or still held in its field.  After every
  event that starts a teardown (the explicit call, the close or error of the transport, a
  failure of \<open>connect\<close> where it stands), the three fields are \<^verbatim>\<open>null\<close>, every handle
  acquired so far has been released exactly once and no other release has happened, and
  a further \<open>disconnect\<close> releases nothing.
\<close>

theorem handles_released_once:
  "(\<forall>h. count_list (acquired (run es LiveSessionService)) h =
          count_list (released (run es LiveSessionService)) h
            + count_list (held (run es LiveSessionService)) h
        \<and> count_list (acquired (run es LiveSessionService)) h \<le> 1)
   \<and> (teardown e (run es LiveSessionService) \<longrightarrow>
        stream (step e (run es LiveSessionService)) = None
      \<and> processor (step e (run es LiveSessionService)) = None
      \<and> inputAudioContext (step e (run es LiveSessionService)) = None
      \<and> (\<forall>h. count_list (released (step e (run es LiveSessionService))) h =
               (if h \<in> set (acquired (step e (run es LiveSessionService))) then 1 else 0))
      \<and> released (disconnect (step e (run es LiveSessionService)))
          = released (step e (run es LiveSessionService)))"
proof -
  let ?s = "run es LiveSessionService"
  have inv: "service_inv ?s"
    using service_inv_init by (rule service_inv_run)
  have inv': "service_inv (step e ?s)"
    using inv by (rule service_inv_step)
  have "stream (step e ?s) = None \<and> processor (step e ?s) = None
      \<and> inputAudioContext (step e ?s) = None
      \<and> (\<forall>h. count_list (released (step e ?s)) h =
               (if h \<in> set (acquired (step e ?s)) then 1 else 0))
      \<and> released (disconnect (step e ?s)) = released (step e ?s)" if "teardown e ?s"
  proof -
    from that have h: "held (step e ?s) = []" by (rule teardown_held)
    show ?thesis
      using held_Nil_fields [OF h] service_inv_released [OF inv' h] h by simp
  qed
  then show ?thesis
    using service_inv_counts [OF inv] by blast
qed

theorem handles_released_once_witness:
  "teardown SessionRejected (run [Connect True, GetUserMediaResolved] LiveSessionService)
   \<and> acquired (step SessionRejected (run [Connect True, GetUserMediaResolved] LiveSessionService))
        = [InputAudioContext, MicStream]
   \<and> released (step SessionRejected (run [Connect True, GetUserMediaResolved] LiveSessionService))
        = [MicStream, InputAudioContext]
   \<and> stream (step SessionRejected (run [Connect True, GetUserMediaResolved] LiveSessionService)) = None
   \<and> processor (step SessionRejected (run [Connect True, GetUserMediaResolved] LiveSessionService))
        = None
   \<and> inputAudioContext
        (step SessionRejected (run [Connect True, GetUserMediaResolved] LiveSessionService)) = None
   \<and> (\<forall>h. count_list
          (released (step SessionRejected (run [Connect True, GetUserMediaResolved] LiveSessionService))) h =
          (if h \<in> set (acquired
             (step SessionRejected (run [Connect True, GetUserMediaResolved] LiveSessionService)))
           then 1 else 0))
   \<and> released (disconnect
          (step SessionRejected (run [Connect True, GetUserMediaResolved] LiveSessionService)))
        = released (step SessionRejected (run [Connect True, GetUserMediaResolved] LiveSessionService))"
proof -
  have t: "teardown SessionRejected (run [Connect True, GetUserMediaResolved] LiveSessionService)"
    by (simp add: LiveSessionService_def)
  have a: "acquired (step SessionRejected (run [Connect True, GetUserMediaResolved] LiveSessionService))
        = [InputAudioContext, MicStream]"
    by (simp add: LiveSessionService_def)
  have r: "released (step SessionRejected (run [Connect True, GetUserMediaResolved] LiveSessionService))
        = [MicStream, InputAudioContext]"
    by (simp add: LiveSessionService_def held_def)
  from t a r handles_released_once [of "[Connect True, GetUserMediaResolved]" SessionRejected]
  show ?thesis by blast
qed

lemma step_released:
  "\<not> teardown e s \<Longrightarrow> released (step e s) = released s"
  by (cases e) (auto simp: createProcessor_def startAudioPipeline_def Let_def)


lemma onCloseCalls_disconnect: "onCloseCalls (disconnect s) = onCloseCalls s + 1"
  by (simp add: onCloseCalls_def)

lemma onCloseCalls_simps [simp]:
  "onCloseCalls (s\<lparr>connect_pc := pc\<rparr>) = onCloseCalls s"
  "onCloseCalls (s\<lparr>isConnected := b\<rparr>) = onCloseCalls s"
  "onCloseCalls (s\<lparr>acquired := a\<rparr>) = onCloseCalls s"
  "onCloseCalls (s\<lparr>activeSession := x\<rparr>) = onCloseCalls s"
  "onCloseCalls (s\<lparr>sessionCloseCalls := n\<rparr>) = onCloseCalls s"
  "onCloseCalls (s\<lparr>stream := y\<rparr>) = onCloseCalls s"
  "onCloseCalls (s\<lparr>processor := y\<rparr>) = onCloseCalls s"
  "onCloseCalls (s\<lparr>inputAudioContext := y\<rparr>) = onCloseCalls s"
  by (simp_all add: onCloseCalls_def)

lemma onCloseCalls_handleMessage: "onCloseCalls (handleMessage m s) = onCloseCalls s"
  by (simp add: handleMessage_def onCloseCalls_def Let_def split: option.splits)

lemma onCloseCalls_step:
  "onCloseCalls (step e s) = onCloseCalls s + (if teardown e s then 1 else 0)"
  by (cases e)
    (auto simp: onCloseCalls_disconnect onCloseCalls_handleMessage createProcessor_def
      startAudioPipeline_def Let_def)

lemma onCloseCalls_run: "onCloseCalls (run es s) = onCloseCalls s + teardowns es s"
  by (induction es arbitrary: s) (simp_all add: onCloseCalls_step)

text \<open>
  Claim C1, as the code has it.  Every call of \<open>disconnect\<close> calls \<open>onClose\<close> exactly once,
  and every event that starts a teardown is one call of \<open>disconnect\<close>: the explicit call,
  the close and the error of the transport, and a failure of \<open>connect\<close>.  No other event
  calls \<open>onClose\<close>.  So over any sequence of events \<open>onClose\<close> is called once for each
  event that starts a teardown.
\<close>

theorem onClose_once_per_teardown:
  "onCloseCalls (disconnect s) = onCloseCalls s + 1
   \<and> onCloseCalls (step e s) = onCloseCalls s + (if teardown e s then 1 else 0)
   \<and> onCloseCalls (run es s) = onCloseCalls s + teardowns es s"
  by (simp add: onCloseCalls_disconnect onCloseCalls_step onCloseCalls_run)

theorem onClose_once_per_teardown_witness:
  "teardowns [Connect True, GetUserMediaRejected] LiveSessionService = 1
   \<and> onCloseCalls LiveSessionService = 0
   \<and> onCloseCalls (run [Connect True, GetUserMediaRejected] LiveSessionService) = 1"
proof -
  have t: "teardowns [Connect True, GetUserMediaRejected] LiveSessionService = 1"
    by (simp add: LiveSessionService_def)
  have z: "onCloseCalls LiveSessionService = 0"
    by (simp add: LiveSessionService_def onCloseCalls_def)
  from t z onClose_once_per_teardown [of LiveSessionService "Connect True"
      "[Connect True, GetUserMediaRejected]"]
  show ?thesis by simp
qed

text \<open>
  Claim C1 as stated fails: after an explicit \<open>disconnect\<close> the close event of the
  transport calls \<open>disconnect\<close> again, and \<open>onClose\<close> is called a second time.
\<close>

theorem onClose_twice_counterexample:
  "onCloseCalls (run [Connect True, GetUserMediaResolved, SessionResolved False, ExplicitDisconnect]
       LiveSessionService) = 1
   \<and> onCloseCalls (run [Connect True, GetUserMediaResolved, SessionResolved False, ExplicitDisconnect,
        TransportClose] LiveSessionService) = 2"
  by (simp add: LiveSessionService_def startAudioPipeline_def createProcessor_def disconnect_def
      cleanup_def Let_def onCloseCalls_def)

end
